theory Spec2Isabelle
  imports Complex_Main "HOL-Library.AList"
begin

section \<open>Strings and the Python runtime\<close>

text \<open>
  The engine is the Python module \<^verbatim>\<open>old_password_strength_script.py\<close>. A Python
  \<^verbatim>\<open>str\<close> is a sequence of Unicode code points, so a password is a list of
  natural numbers (\<^verbatim>\<open>len\<close> counts code points). The literals of the source are ASCII
  and are written as Isabelle strings, converted by \<open>ustr\<close>. Feedback lines and labels
  are never inspected by the engine and stay Isabelle strings.

  Python's \<^verbatim>\<open>float\<close> is an IEEE double. The model takes the real numbers in its place:
  \<^verbatim>\<open>math.log2\<close> is \<open>log 2\<close> and every operation is exact. An entropy of the model is
  the exact value that the double of the code approximates; the two can differ in the
  last digits, and then the entropy points can differ by one. The minimum of two doubles
  and the conversion \<^verbatim>\<open>int\<close> round nothing.
\<close>

type_synonym ustring = "nat list"

definition ustr :: "string \<Rightarrow> ustring" where
  "ustr s = map of_char s"

text \<open>The character classes of the regular expressions \<^verbatim>\<open>[a-z]\<close>, \<^verbatim>\<open>[A-Z]\<close>, \<^verbatim>\<open>[0-9]\<close>.\<close>

definition is_lower :: "nat \<Rightarrow> bool" where
  "is_lower c = (97 \<le> c \<and> c \<le> 122)"

definition is_upper :: "nat \<Rightarrow> bool" where
  "is_upper c = (65 \<le> c \<and> c \<le> 90)"

definition is_digit :: "nat \<Rightarrow> bool" where
  "is_digit c = (48 \<le> c \<and> c \<le> 57)"

definition is_letter :: "nat \<Rightarrow> bool" where
  "is_letter c = (is_lower c \<or> is_upper c)"

text \<open>
  \<^verbatim>\<open>str.lower()\<close>. On a string of ASCII characters it maps \<^verbatim>\<open>A-Z\<close> to \<^verbatim>\<open>a-z\<close> and
  leaves the rest. On any other string the result is given by the Unicode tables of the
  Python runtime, which are no part of the repository: they are the parameter \<open>L\<close> of
  every function that lowercases, and every theorem holds for each \<open>L\<close>.
\<close>

type_synonym lowering = "ustring \<Rightarrow> ustring"

definition ascii_lower :: "nat \<Rightarrow> nat" where
  "ascii_lower c = (if is_upper c then c + 32 else c)"

definition py_lower :: "lowering \<Rightarrow> ustring \<Rightarrow> ustring" where
  "py_lower L s = (if list_all (\<lambda>c. c < 128) s then map ascii_lower s else L s)"

text \<open>\<^verbatim>\<open>str.strip()\<close> removes the characters for which \<^verbatim>\<open>str.isspace\<close> holds from both ends.\<close>

definition is_space :: "nat \<Rightarrow> bool" where
  "is_space c = ((9 \<le> c \<and> c \<le> 13) \<or> (28 \<le> c \<and> c \<le> 32) \<or> c = 133 \<or> c = 160 \<or> c = 5760
     \<or> (8192 \<le> c \<and> c \<le> 8202) \<or> c = 8232 \<or> c = 8233 \<or> c = 8239 \<or> c = 8287 \<or> c = 12288)"

definition py_strip :: "ustring \<Rightarrow> ustring" where
  "py_strip s = rev (dropWhile is_space (rev (dropWhile is_space s)))"

text \<open>\<^verbatim>\<open>p in s\<close> on strings: \<open>p\<close> occurs in \<open>s\<close> as a contiguous substring.\<close>

fun startswith :: "ustring \<Rightarrow> ustring \<Rightarrow> bool" where
  "startswith s [] = True"
| "startswith [] (p # ps) = False"
| "startswith (c # s) (p # ps) = (c = p \<and> startswith s ps)"

fun str_in :: "ustring \<Rightarrow> ustring \<Rightarrow> bool" where
  "str_in p [] = (p = [])"
| "str_in p (c # s) = (startswith (c # s) p \<or> str_in p s)"

text \<open>\<^verbatim>\<open>re.search\<close>: the pattern, given as a matcher at the start of a string, is tried at
  every position from left to right.\<close>

fun re_search :: "(ustring \<Rightarrow> bool) \<Rightarrow> ustring \<Rightarrow> bool" where
  "re_search m [] = m []"
| "re_search m (c # s) = (m (c # s) \<or> re_search m s)"

text \<open>\<^verbatim>\<open>$\<close> without \<^verbatim>\<open>re.MULTILINE\<close>: at the end of the string, or before a newline that ends it.\<close>

definition at_dollar :: "ustring \<Rightarrow> bool" where
  "at_dollar rest = (rest = [] \<or> rest = [10])"

text \<open>\<^verbatim>\<open>int(x)\<close> of a float: truncation towards zero.\<close>

definition py_int :: "real \<Rightarrow> int" where
  "py_int x = (if 0 \<le> x then \<lfloor>x\<rfloor> else \<lceil>x\<rceil>)"

text \<open>\<^verbatim>\<open>d.get(k, default)\<close> on a dictionary kept as an association list in insertion order.\<close>

definition dict_get :: "('k \<times> 'v) list \<Rightarrow> 'k \<Rightarrow> 'v \<Rightarrow> 'v" where
  "dict_get d k dflt = (case map_of d k of None \<Rightarrow> dflt | Some v \<Rightarrow> v)"

section \<open>Data structures and reference data\<close>

record StrengthResult =
  score :: int
  label :: string
  entropy_bits :: real
  feedback :: "string list"

definition COMMON_PASSWORDS :: "ustring set" where
  "COMMON_PASSWORDS = {ustr ''password'', ustr ''123456'', ustr ''123456789'', ustr ''qwerty'',
     ustr ''letmein'', ustr ''admin'', ustr ''password1'', ustr ''welcome'', ustr ''iloveyou'',
     ustr ''monkey'', ustr ''dragon'', ustr ''football''}"

definition KEYBOARD_PATTERNS :: "ustring list" where
  "KEYBOARD_PATTERNS = [ustr ''qwerty'', ustr ''asdf'', ustr ''zxcv'', ustr ''poiuy'',
     ustr ''lkjh'', ustr ''mnbv'', ustr ''12345'', ustr ''67890'']"

definition SEQUENCES :: "ustring list" where
  "SEQUENCES = [ustr ''abcdefghijklmnopqrstuvwxyz'', ustr ''ABCDEFGHIJKLMNOPQRSTUVWXYZ'',
     ustr ''0123456789'']"

section \<open>Helper checks\<close>

text \<open>\<^verbatim>\<open>detect_charsets\<close>: four independent \<^verbatim>\<open>re.search\<close> tests, each adding the size of
  its class and its name. The class \<^verbatim>\<open>[^a-zA-Z0-9]\<close> holds every other code point.\<close>

definition detect_charsets :: "ustring \<Rightarrow> int \<times> string list" where
  "detect_charsets pw =
    (let (sets_size, used) = (0, []);
         (sets_size, used) = (if list_ex is_lower pw
            then (sets_size + 26, used @ [''lowercase'']) else (sets_size, used));
         (sets_size, used) = (if list_ex is_upper pw
            then (sets_size + 26, used @ [''uppercase'']) else (sets_size, used));
         (sets_size, used) = (if list_ex is_digit pw
            then (sets_size + 10, used @ [''digits'']) else (sets_size, used));
         (sets_size, used) = (if list_ex (\<lambda>c. \<not> (is_lower c \<or> is_upper c \<or> is_digit c)) pw
            then (sets_size + 33, used @ [''symbols'']) else (sets_size, used))
     in (sets_size, used))"

text \<open>\<^verbatim>\<open>shannon_entropy_bits\<close>: the first loop counts every character in a dictionary, the
  second walks the counts in insertion order.\<close>

definition count_chars :: "ustring \<Rightarrow> (nat \<times> int) list" where
  "count_chars pw = fold (\<lambda>ch freq. AList.update ch (dict_get freq ch 0 + 1) freq) pw []"

definition shannon_entropy_bits :: "ustring \<Rightarrow> real" where
  "shannon_entropy_bits pw =
    (if pw = [] then 0
     else
       let freq = count_chars pw;
           len = int (length pw);
           entropy = fold (\<lambda>count entropy.
               let p = real_of_int count / real_of_int len in entropy - p * log 2 p)
             (map snd freq) 0
       in entropy * real_of_int len)"

definition estimated_search_space_entropy_bits :: "ustring \<Rightarrow> real" where
  "estimated_search_space_entropy_bits pw =
    (let (charset_size, _) = detect_charsets pw
     in if charset_size = 0 then 0
        else real_of_int (int (length pw)) * log 2 (real_of_int charset_size))"

text \<open>\<^verbatim>\<open>str(n)\<close> of an integer: its decimal digits, after a minus sign when it is negative.\<close>

fun decimal :: "nat \<Rightarrow> ustring" where
  "decimal n = (if n < 10 then [48 + n] else decimal (n div 10) @ [48 + n mod 10])"

declare decimal.simps [simp del]

definition py_str :: "int \<Rightarrow> ustring" where
  "py_str n = (if n < 0 then 45 # decimal (nat (- n)) else decimal (nat n))"

text \<open>\<^verbatim>\<open>has_repeated_runs\<close> searches for the pattern
  \<^verbatim>\<open>"(.)\1{" + str(run_len - 1) + ",}"\<close>. The dot matches every character but the newline
  (code point 10).
  \<^item> For \<open>run_len \<ge> 1\<close> the braces are a quantifier: the back-reference asks for at least
    \<open>run_len - 1\<close> further copies of the character (\<open>run_at\<close>).
  \<^item> For \<open>run_len \<le> 0\<close> the number is negative, the braces are no quantifier and Python
    reads them as text: the pattern is a character, the same character once more, and
    then the text \<^verbatim>\<open>{\<close>, \<^verbatim>\<open>str(run_len - 1)\<close>, \<^verbatim>\<open>,}\<close> (\<open>brace_text_at\<close>).
  The source calls the function with the default \<open>run_len = 4\<close> only. For
  \<open>run_len - 1 \<ge> 4294967295\<close> Python refuses the quantifier with an \<^verbatim>\<open>OverflowError\<close>;
  the model is for run lengths below that.\<close>

definition dot_matches :: "nat \<Rightarrow> bool" where
  "dot_matches c = (c \<noteq> 10)"

fun run_at :: "nat \<Rightarrow> ustring \<Rightarrow> bool" where
  "run_at k [] = False"
| "run_at k (c # rest) = (dot_matches c \<and> k \<le> length (takeWhile (\<lambda>d. d = c) rest))"

fun brace_text_at :: "int \<Rightarrow> ustring \<Rightarrow> bool" where
  "brace_text_at n (c # d # rest) =
     (dot_matches c \<and> d = c \<and> startswith rest (ustr ''{'' @ py_str n @ ustr '',}''))"
| "brace_text_at n s = False"

definition has_repeated_runs :: "ustring \<Rightarrow> int \<Rightarrow> bool" where
  "has_repeated_runs pw run_len =
     (if 1 \<le> run_len then re_search (run_at (nat (run_len - 1))) pw
      else re_search (brace_text_at (run_len - 1)) pw)"

text \<open>\<^verbatim>\<open>has_sequence\<close>: for each sequence, every slice \<^verbatim>\<open>seq_lower[i:i+seq_len]\<close> with
  \<^verbatim>\<open>i in range(len(seq_lower) - seq_len + 1)\<close>, then the same for the reversed sequence.
  The first hit returns \<^verbatim>\<open>True\<close>.\<close>

definition slices :: "ustring \<Rightarrow> nat \<Rightarrow> ustring list" where
  "slices s n = map (\<lambda>i. take n (drop i s)) [0..<length s + 1 - n]"

definition has_sequence :: "lowering \<Rightarrow> ustring \<Rightarrow> nat \<Rightarrow> bool" where
  "has_sequence L pw seq_len =
    (let lower = py_lower L pw
     in list_ex (\<lambda>seq.
          let seq_lower = py_lower L seq;
              rev_seq = rev seq_lower
          in list_ex (\<lambda>chunk. str_in chunk lower) (slices seq_lower seq_len)
             \<or> list_ex (\<lambda>chunk. str_in chunk lower) (slices rev_seq seq_len))
        SEQUENCES)"

text \<open>\<^verbatim>\<open>has_keyboard_pattern\<close>: \<^verbatim>\<open>any\<close> over the patterns that pass the filter; \<^verbatim>\<open>any\<close>
  tests the truth of each pattern, that is, that it is not the empty string.\<close>

definition has_keyboard_pattern :: "lowering \<Rightarrow> ustring \<Rightarrow> nat \<Rightarrow> bool" where
  "has_keyboard_pattern L pw min_len =
    (let lower = py_lower L pw
     in list_ex (\<lambda>pat. pat \<noteq> [])
          (filter (\<lambda>pat. min_len \<le> length pat \<and> str_in pat lower) KEYBOARD_PATTERNS))"

text \<open>\<^verbatim>\<open>re.match(r"^[a-zA-Z]+[0-9]{1,4}$", raw)\<close>: the letters and the digits are disjoint
  classes, so the greedy runs are the only way to match: a non-empty run of letters, then
  a run of one to four digits, then \<^verbatim>\<open>$\<close>.\<close>

definition re_match_letters_digits :: "ustring \<Rightarrow> bool" where
  "re_match_letters_digits raw =
    (let letters = takeWhile is_letter raw;
         rest = dropWhile is_letter raw;
         digits = takeWhile is_digit rest;
         rest = dropWhile is_digit rest
     in letters \<noteq> [] \<and> 1 \<le> length digits \<and> length digits \<le> 4 \<and> at_dollar rest)"

text \<open>\<^verbatim>\<open>re.sub(r"[0-9]+$", "", raw)\<close>: the only match is the run of digits that ends at
  \<^verbatim>\<open>$\<close>, and it is deleted.\<close>

definition rstrip_digits :: "ustring \<Rightarrow> ustring" where
  "rstrip_digits s = rev (dropWhile is_digit (rev s))"

definition re_sub_trailing_digits :: "ustring \<Rightarrow> ustring" where
  "re_sub_trailing_digits raw =
    (if raw \<noteq> [] \<and> last raw = 10 then rstrip_digits (butlast raw) @ [10]
     else rstrip_digits raw)"

text \<open>\<^verbatim>\<open>str.maketrans\<close> and \<^verbatim>\<open>str.translate\<close>: every character with an entry in the table
  is replaced by the entry, in one pass.\<close>

definition leet_map :: "(nat \<times> ustring) list" where
  "leet_map = [(of_char CHR ''@'', ustr ''a''), (of_char CHR ''0'', ustr ''o''),
     (of_char CHR ''1'', ustr ''i''), (of_char CHR ''!'', ustr ''i''),
     (of_char CHR ''$'', ustr ''s''), (of_char CHR ''3'', ustr ''e'')]"

definition translate :: "(nat \<times> ustring) list \<Rightarrow> ustring \<Rightarrow> ustring" where
  "translate table s = concat (map (\<lambda>c. dict_get table c [c]) s)"

definition looks_like_common_password :: "lowering \<Rightarrow> ustring \<Rightarrow> bool" where
  "looks_like_common_password L pw =
    (let raw = py_strip pw;
         lower = py_lower L raw
     in if lower \<in> COMMON_PASSWORDS then True
        else if re_match_letters_digits raw
                \<and> (let base = py_lower L (re_sub_trailing_digits raw) in base \<in> COMMON_PASSWORDS)
        then True
        else
          let normalized = translate leet_map lower
          in if normalized \<in> COMMON_PASSWORDS then True else False)"

section \<open>Scoring\<close>

text \<open>\<^verbatim>\<open>score_password\<close> threads the running score and the feedback list through its
  steps; each step below is one block of the function, in the order of the source.\<close>

type_synonym scoring = "int \<times> string list"

definition length_step :: "int \<Rightarrow> scoring \<Rightarrow> scoring" where
  "length_step len st =
    (let (score, feedback) = st
     in if len < 8
        then (score + 5, feedback @ [''Too short: aim for at least 12-16 characters.''])
        else if len < 12
        then (score + 20, feedback @ [''Decent length, but 12-16+ is better.''])
        else if len < 16 then (score + 32, feedback)
        else (score + 40, feedback))"

definition variety_step :: "int \<times> string list \<Rightarrow> scoring \<Rightarrow> scoring" where
  "variety_step charsets st =
    (let (charset_size, used_sets) = charsets;
         (score, feedback) = st;
         score = score + min 20 (int (length used_sets) * 5);
         feedback = (if ''lowercase'' \<notin> set used_sets
            then feedback @ [''add lowercase letters to increase variety.''] else feedback);
         feedback = (if ''uppercase'' \<notin> set used_sets
            then feedback @ [''Add uppercase letters to increase variety.''] else feedback);
         feedback = (if ''digits'' \<notin> set used_sets
            then feedback @ [''Add digits to increase variety.''] else feedback);
         feedback = (if ''symbols'' \<notin> set used_sets
            then feedback @ [''Add symbols(e.g., !@#$) to increase variety.''] else feedback)
     in (score, feedback))"

definition entropy_step :: "real \<Rightarrow> scoring \<Rightarrow> scoring" where
  "entropy_step bits st =
    (let (score, feedback) = st
     in (score + py_int (min 25 ((bits / 80) * 25)), feedback))"

definition penalty_step :: "lowering \<Rightarrow> ustring \<Rightarrow> scoring \<Rightarrow> scoring" where
  "penalty_step L pw st =
    (let (score, feedback) = st;
         penalties = 0;
         (penalties, feedback) = (if looks_like_common_password L pw
            then (penalties + 25,
                  feedback @ [''This looks like a common password or easy variation-avoid it.''])
            else (penalties, feedback));
         (penalties, feedback) = (if has_repeated_runs pw 4
            then (penalties + 8, feedback @ [''Avoid repeated characters (e.g., aaaa, 1111).''])
            else (penalties, feedback));
         (penalties, feedback) = (if has_keyboard_pattern L pw 4
            then (penalties + 6, feedback @ [''Avoid keyboard patterns (e.g., qwerty, asdf).''])
            else (penalties, feedback));
         score = score - penalties
     in (score, feedback))"

text \<open>The label: four \<^verbatim>\<open>if\<close> statements in a row, the last with an \<^verbatim>\<open>else\<close>. Each one
  that fires overwrites the label; before the first the variable is unbound (\<open>None\<close>).\<close>

definition label_of :: "int \<Rightarrow> string" where
  "label_of clamped =
    (let score = clamped;
         label = None;
         label = (if score < 20 then Some ''Very Weak'' else label);
         label = (if score < 40 then Some ''Weak'' else label);
         label = (if score < 60 then Some ''fair'' else label)
     in if score < 80 then ''Strong'' else ''Very Strong'')"

definition score_password :: "lowering \<Rightarrow> ustring \<Rightarrow> StrengthResult" where
  "score_password L pw =
    (if pw = []
     then \<lparr>score = 0, label = ''Very Weak'', entropy_bits = 0, feedback = [''Password is empty'']\<rparr>
     else
       let len = int (length pw);
           shannon_bits = shannon_entropy_bits pw;
           space_bits = estimated_search_space_entropy_bits pw;
           entropy_bits = min shannon_bits space_bits;
           st = length_step len (0, []);
           st = variety_step (detect_charsets pw) st;
           st = entropy_step entropy_bits st;
           (score, feedback) = penalty_step L pw st;
           score = max 0 (min 100 score);
           label = label_of score;
           feedback = (if feedback = [] \<and> 80 \<le> score
              then feedback @ [''Great password. Consider using a password manager to generate/store unique passwords.'']
              else feedback)
       in \<lparr>score = score, label = label, entropy_bits = entropy_bits, feedback = feedback\<rparr>)"

section \<open>Quantities read off the scoring steps\<close>

text \<open>The points on the running score when the penalty block is reached, the sum the
  penalty block subtracts, and the feedback list when the last step is reached. They name
  intermediate values of \<^verbatim>\<open>score_password\<close> so that theorems can speak about them.\<close>

definition earned_points :: "ustring \<Rightarrow> int" where
  "earned_points pw =
     fst (entropy_step (min (shannon_entropy_bits pw) (estimated_search_space_entropy_bits pw))
           (variety_step (detect_charsets pw) (length_step (int (length pw)) (0, []))))"

definition step_feedback :: "lowering \<Rightarrow> ustring \<Rightarrow> string list" where
  "step_feedback L pw =
     snd (penalty_step L pw
           (entropy_step (min (shannon_entropy_bits pw) (estimated_search_space_entropy_bits pw))
             (variety_step (detect_charsets pw) (length_step (int (length pw)) (0, [])))))"

definition penalties :: "lowering \<Rightarrow> ustring \<Rightarrow> int" where
  "penalties L pw = (if looks_like_common_password L pw then 25 else 0)
     + (if has_repeated_runs pw 4 then 8 else 0)
     + (if has_keyboard_pattern L pw 4 then 6 else 0)"

definition length_points :: "ustring \<Rightarrow> int" where
  "length_points pw =
     (if length pw < 8 then 5 else if length pw < 12 then 20 else if length pw < 16 then 32 else 40)"

definition variety_points :: "ustring \<Rightarrow> int" where
  "variety_points pw = min 20 (int (length (snd (detect_charsets pw))) * 5)"

definition entropy_points :: "ustring \<Rightarrow> int" where
  "entropy_points pw =
     py_int (min 25 (min (shannon_entropy_bits pw) (estimated_search_space_entropy_bits pw) / 80 * 25))"

text \<open>Every feedback literal of the source, in the order of the source.\<close>

definition feedback_lines :: "string list" where
  "feedback_lines =
    [''Password is empty'',
     ''Too short: aim for at least 12-16 characters.'',
     ''Decent length, but 12-16+ is better.'',
     ''add lowercase letters to increase variety.'',
     ''Add uppercase letters to increase variety.'',
     ''Add digits to increase variety.'',
     ''Add symbols(e.g., !@#$) to increase variety.'',
     ''This looks like a common password or easy variation-avoid it.'',
     ''Avoid repeated characters (e.g., aaaa, 1111).'',
     ''Avoid keyboard patterns (e.g., qwerty, asdf).'',
     ''Great password. Consider using a password manager to generate/store unique passwords.'']"

section \<open>The common-password rules as the specification words them\<close>

text \<open>The leetspeak substitutions, one character at a time:
  \<^verbatim>\<open>@\<close> to \<^verbatim>\<open>a\<close>, \<^verbatim>\<open>0\<close> to \<^verbatim>\<open>o\<close>, \<^verbatim>\<open>1\<close> and \<^verbatim>\<open>!\<close> to \<^verbatim>\<open>i\<close>, \<^verbatim>\<open>$\<close> to \<^verbatim>\<open>s\<close>,
  \<^verbatim>\<open>3\<close> to \<^verbatim>\<open>e\<close>. Then the three rules: (a) the trimmed, lowercased password is a
  common password; (b) a string is letters followed by one to four digits and the
  lowercased letters are a common password; (c) the lowercased string with the
  substitutions applied is a common password.\<close>

definition leet_char :: "nat \<Rightarrow> nat" where
  "leet_char c =
     (if c = of_char CHR ''@'' then of_char CHR ''a''
      else if c = of_char CHR ''0'' then of_char CHR ''o''
      else if c = of_char CHR ''1'' then of_char CHR ''i''
      else if c = of_char CHR ''!'' then of_char CHR ''i''
      else if c = of_char CHR ''$'' then of_char CHR ''s''
      else if c = of_char CHR ''3'' then of_char CHR ''e''
      else c)"

definition exact_match :: "lowering \<Rightarrow> ustring \<Rightarrow> bool" where
  "exact_match L pw = (py_lower L (py_strip pw) \<in> COMMON_PASSWORDS)"

definition digit_variant :: "lowering \<Rightarrow> ustring \<Rightarrow> bool" where
  "digit_variant L s =
     (\<exists>letters digits. s = letters @ digits
        \<and> letters \<noteq> [] \<and> list_all is_letter letters
        \<and> 1 \<le> length digits \<and> length digits \<le> 4 \<and> list_all is_digit digits
        \<and> py_lower L letters \<in> COMMON_PASSWORDS)"

definition leet_variant :: "lowering \<Rightarrow> ustring \<Rightarrow> bool" where
  "leet_variant L s = (map leet_char (py_lower L s) \<in> COMMON_PASSWORDS)"

section \<open>The frequency-based estimate in closed form\<close>

text \<open>The frequency-based estimate: minus the sum of \<open>p * log2 p\<close> over the distinct
  characters, \<open>p\<close> the share of the character in the password, times the length.\<close>

definition spec_shannon :: "ustring \<Rightarrow> real" where
  "spec_shannon pw =
     (- (\<Sum>c\<in>set pw. (real (count_list pw c) / real (length pw))
                       * log 2 (real (count_list pw c) / real (length pw))))
       * real (length pw)"

text \<open>\<open>k * log2 k\<close>, the building block of the closed form of the estimate.\<close>

definition nlogn :: "nat \<Rightarrow> real" where
  "nlogn k = real k * log 2 (real k)"

section \<open>Unfolding rules for evaluation\<close>

lemmas char_defs = is_lower_def is_upper_def is_digit_def is_letter_def is_space_def
  ascii_lower_def dot_matches_def

lemmas common_defs = looks_like_common_password_def py_strip_def py_lower_def
  COMMON_PASSWORDS_def re_match_letters_digits_def re_sub_trailing_digits_def rstrip_digits_def
  translate_def leet_map_def dict_get_def at_dollar_def Let_def

lemmas keyboard_defs = has_keyboard_pattern_def py_lower_def KEYBOARD_PATTERNS_def

lemmas sequence_defs = has_sequence_def SEQUENCES_def slices_def py_lower_def Let_def

section \<open>The scoring steps\<close>

lemma fst_length_step: "fst (length_step len (s, fb)) =
   s + (if len < 8 then 5 else if len < 12 then 20 else if len < 16 then 32 else 40)"
  by (simp add: length_step_def)

lemma fst_variety_step: "fst (variety_step (sz, used) (s, fb)) = s + min 20 (int (length used) * 5)"
  by (simp add: variety_step_def Let_def)

lemma fst_entropy_step: "fst (entropy_step bits (s, fb)) = s + py_int (min 25 ((bits / 80) * 25))"
  by (simp add: entropy_step_def)

lemma snd_entropy_step: "snd (entropy_step bits st) = snd st"
  by (simp add: entropy_step_def split: prod.splits)

lemma fst_penalty_step: "fst (penalty_step L pw (s, fb)) = s - penalties L pw"
  by (simp add: penalty_step_def penalties_def Let_def)

lemma py_int_bounds: "0 \<le> x \<Longrightarrow> x \<le> 25 \<Longrightarrow> 0 \<le> py_int x \<and> py_int x \<le> 25"
  by (simp add: py_int_def floor_le_iff)

lemma py_int_mono: "x \<le> y \<Longrightarrow> py_int x \<le> py_int y"
proof -
  have "\<lceil>x\<rceil> \<le> \<lfloor>y\<rfloor>" if "x < 0" "0 \<le> y"
  proof -
    have "\<lceil>x\<rceil> \<le> 0" using that by (simp add: ceiling_le_iff)
    moreover have "0 \<le> \<lfloor>y\<rfloor>" using that by simp
    ultimately show ?thesis by linarith
  qed
  then show "x \<le> y \<Longrightarrow> py_int x \<le> py_int y"
    unfolding py_int_def by (auto intro: floor_mono ceiling_mono)
qed

lemma length_used: "length (snd (detect_charsets pw)) \<le> 4"
  by (simp add: detect_charsets_def Let_def)

section \<open>The character counts and the frequency-based estimate\<close>

lemma dict_get_update:
  "dict_get (AList.update k v al) c d = (if c = k then v else dict_get al c d)"
  by (simp add: dict_get_def update_conv)

lemma dict_get_absent: "c \<notin> fst ` set al \<Longrightarrow> dict_get al c d = d"
  by (simp add: dict_get_def map_of_eq_None_iff[THEN iffD2])

lemma fold_count_chars:
  "distinct (map fst acc) \<Longrightarrow>
   distinct (map fst (fold (\<lambda>ch freq. AList.update ch (dict_get freq ch 0 + 1) freq) pw acc)) \<and>
   fst ` set (fold (\<lambda>ch freq. AList.update ch (dict_get freq ch 0 + 1) freq) pw acc) = set pw \<union> fst ` set acc \<and>
   (\<forall>c. dict_get (fold (\<lambda>ch freq. AList.update ch (dict_get freq ch 0 + 1) freq) pw acc) c 0
        = dict_get acc c 0 + int (count_list pw c))"
proof (induction pw arbitrary: acc)
  case Nil
  then show ?case by simp
next
  case (Cons x pw)
  let ?acc = "AList.update x (dict_get acc x 0 + 1) acc"
  have d: "distinct (map fst ?acc)" using Cons.prems by (rule distinct_update)
  from Cons.IH[OF d] show ?case
    by (auto simp: dom_update dict_get_update)
qed

lemma count_chars_distinct: "distinct (map fst (count_chars pw))"
  using fold_count_chars[of "[]" pw] by (simp add: count_chars_def)

lemma count_chars_keys: "fst ` set (count_chars pw) = set pw"
  using fold_count_chars[of "[]" pw] by (simp add: count_chars_def)

lemma count_chars_get: "dict_get (count_chars pw) c 0 = int (count_list pw c)"
  using fold_count_chars[of "[]" pw] by (simp add: count_chars_def dict_get_def)

lemma count_chars_set: "set (count_chars pw) = (\<lambda>c. (c, int (count_list pw c))) ` set pw"
proof (rule set_eqI)
  fix kv :: "nat \<times> int"
  obtain k v where kv: "kv = (k, v)" by (cases kv)
  show "kv \<in> set (count_chars pw) \<longleftrightarrow> kv \<in> (\<lambda>c. (c, int (count_list pw c))) ` set pw"
  proof
    assume a: "kv \<in> set (count_chars pw)"
    then have "map_of (count_chars pw) k = Some v"
      using count_chars_distinct kv by simp
    then have "dict_get (count_chars pw) k 0 = v" by (simp add: dict_get_def)
    then have "v = int (count_list pw k)" by (simp add: count_chars_get)
    moreover have "k \<in> set pw" using a kv count_chars_keys[of pw] by force
    ultimately show "kv \<in> (\<lambda>c. (c, int (count_list pw c))) ` set pw" using kv by blast
  next
    assume "kv \<in> (\<lambda>c. (c, int (count_list pw c))) ` set pw"
    then have k: "k \<in> set pw" and v: "v = int (count_list pw k)" using kv by auto
    from k obtain w where w: "(k, w) \<in> set (count_chars pw)"
      using count_chars_keys[of pw] by force
    then have "map_of (count_chars pw) k = Some w" using count_chars_distinct by simp
    then have "dict_get (count_chars pw) k 0 = w" by (simp add: dict_get_def)
    then have "w = v" using v by (simp add: count_chars_get)
    then show "kv \<in> set (count_chars pw)" using w kv by simp
  qed
qed

lemma fold_minus: "fold (\<lambda>count entropy. entropy - g count) xs (a::real) = a - sum_list (map g xs)"
  by (induction xs arbitrary: a) simp_all

lemma sum_counts:
  "sum_list (map (\<lambda>kv. g (snd kv)) (count_chars pw)) = (\<Sum>c\<in>set pw. (g (int (count_list pw c)) :: real))"
proof -
  have "distinct (count_chars pw)" using count_chars_distinct[of pw] by (rule distinct_map[THEN iffD1, THEN conjunct1])
  then have "sum_list (map (\<lambda>kv. g (snd kv)) (count_chars pw)) = (\<Sum>kv\<in>set (count_chars pw). g (snd kv))"
    by (rule sum_list_distinct_conv_sum_set)
  also have "\<dots> = (\<Sum>c\<in>set pw. g (int (count_list pw c)))"
    unfolding count_chars_set by (subst sum.reindex) (auto simp: inj_on_def)
  finally show ?thesis .
qed

lemma shannon_entropy_bits_eq: "shannon_entropy_bits pw = spec_shannon pw"
proof (cases "pw = []")
  case True
  then show ?thesis by (simp add: shannon_entropy_bits_def spec_shannon_def)
next
  case False
  define g where "g count = real_of_int count / real_of_int (int (length pw))
      * log 2 (real_of_int count / real_of_int (int (length pw)))" for count
  have "shannon_entropy_bits pw =
      fold (\<lambda>count entropy. entropy - g count) (map snd (count_chars pw)) 0 * real_of_int (int (length pw))"
    using False by (simp add: shannon_entropy_bits_def Let_def g_def)
  also have "\<dots> = (- sum_list (map (\<lambda>kv. g (snd kv)) (count_chars pw))) * real_of_int (int (length pw))"
    by (simp add: fold_minus comp_def)
  also have "\<dots> = (- (\<Sum>c\<in>set pw. g (int (count_list pw c)))) * real_of_int (int (length pw))"
    by (simp only: sum_counts)
  also have "\<dots> = spec_shannon pw"
    by (simp add: spec_shannon_def g_def)
  finally show ?thesis .
qed

lemma nlogn_0: "nlogn 0 = 0" by (simp add: nlogn_def)
lemma nlogn_1: "nlogn (Suc 0) = 0" by (simp add: nlogn_def)

lemma ln_convex_step:
  fixes a :: real
  assumes "0 < a"
  shows "2 * (a + 1) * ln (a + 1) \<le> a * ln a + (a + 2) * ln (a + 2)"
proof -
  have "ln ((a + 1) / a) \<le> (a + 1) / a - 1" using assms by (intro ln_le_minus_one) simp
  then have "ln (a + 1) - ln a \<le> 1 / a" using assms by (simp add: ln_div field_simps)
  then have "a * (ln (a + 1) - ln a) \<le> a * (1 / a)" using assms by (intro mult_left_mono) simp_all
  then have 1: "a * ln (a + 1) - a * ln a \<le> 1" using assms by (simp add: algebra_simps)
  have "ln ((a + 1) / (a + 2)) \<le> (a + 1) / (a + 2) - 1" using assms by (intro ln_le_minus_one) simp
  then have "ln (a + 1) - ln (a + 2) \<le> - 1 / (a + 2)" using assms by (simp add: ln_div field_simps)
  then have "(a + 2) * (ln (a + 1) - ln (a + 2)) \<le> (a + 2) * (- 1 / (a + 2))"
    using assms by (intro mult_left_mono) simp_all
  then have 2: "(a + 2) * ln (a + 1) - (a + 2) * ln (a + 2) \<le> - 1" using assms by (simp add: algebra_simps)
  from 1 2 show ?thesis by (simp add: algebra_simps)
qed

lemma nlogn_step_mono: "nlogn (Suc k) - nlogn k \<le> nlogn (Suc (Suc k)) - nlogn (Suc k)"
proof (cases k)
  case 0
  then show ?thesis by (simp add: nlogn_def)
next
  case (Suc j)
  have l2: "0 < ln (2::real)" by simp
  have "2 * (real k + 1) * ln (real k + 1) \<le> real k * ln (real k) + (real k + 2) * ln (real k + 2)"
    using Suc by (intro ln_convex_step) simp
  then have "(2 * (real k + 1) * ln (real k + 1)) / ln 2 \<le> (real k * ln (real k) + (real k + 2) * ln (real k + 2)) / ln 2"
    using l2 by (rule divide_right_mono[OF _ less_imp_le])
  then show ?thesis
    by (simp add: nlogn_def log_def add_divide_distrib algebra_simps)
qed

lemma nlogn_diff_mono: "k \<le> n \<Longrightarrow> nlogn (Suc k) - nlogn k \<le> nlogn (Suc n) - nlogn n"
  by (rule lift_Suc_mono_le[of "\<lambda>k. nlogn (Suc k) - nlogn k"]) (simp_all add: nlogn_step_mono)

lemma spec_shannon_nlogn:
  "spec_shannon pw = nlogn (length pw) - (\<Sum>c\<in>set pw. nlogn (count_list pw c))"
proof (cases "pw = []")
  case True
  then show ?thesis by (simp add: spec_shannon_def nlogn_def)
next
  case False
  then have n: "0 < real (length pw)" by simp
  have tm: "real (count_list pw c) / real (length pw) * log 2 (real (count_list pw c) / real (length pw)) * real (length pw)
      = nlogn (count_list pw c) - real (count_list pw c) * log 2 (real (length pw))" if "c \<in> set pw" for c
  proof -
    have "count_list pw c \<noteq> 0" using that by (simp add: count_list_0_iff)
    then have "0 < count_list pw c" by simp
    then have k: "0 < real (count_list pw c)" by simp
    have e: "log 2 (real (count_list pw c) / real (length pw)) = log 2 (real (count_list pw c)) - log 2 (real (length pw))"
      using k n by (simp add: log_divide)
    show ?thesis unfolding e nlogn_def using n by (simp add: algebra_simps)
  qed
  have "spec_shannon pw = - (\<Sum>c\<in>set pw. real (count_list pw c) / real (length pw) * log 2 (real (count_list pw c) / real (length pw)) * real (length pw))"
    by (simp add: spec_shannon_def sum_distrib_right)
  also have "\<dots> = - (\<Sum>c\<in>set pw. nlogn (count_list pw c) - real (count_list pw c) * log 2 (real (length pw)))"
    using tm by simp
  also have "\<dots> = (\<Sum>c\<in>set pw. real (count_list pw c)) * log 2 (real (length pw)) - (\<Sum>c\<in>set pw. nlogn (count_list pw c))"
    by (simp add: sum_subtractf sum_distrib_right)
  also have "(\<Sum>c\<in>set pw. real (count_list pw c)) = real (length pw)"
    using sum_count_set[of pw "set pw"] by (simp flip: of_nat_sum)
  finally show ?thesis by (simp add: nlogn_def)
qed

lemma nlogn_nonneg: "0 \<le> nlogn k"
  by (cases k) (simp_all add: nlogn_def)

lemma nlogn_count_le: "nlogn (count_list pw c) \<le> real (count_list pw c) * log 2 (real (length pw))"
proof (cases "count_list pw c = 0")
  case True
  then show ?thesis by (simp add: nlogn_def)
next
  case False
  then have "0 < real (count_list pw c)" by simp
  moreover have "real (count_list pw c) \<le> real (length pw)" by (simp add: count_le_length)
  ultimately have "log 2 (real (count_list pw c)) \<le> log 2 (real (length pw))"
    by (intro log_mono) simp_all
  then show ?thesis unfolding nlogn_def by (intro mult_left_mono) simp_all
qed

lemma spec_shannon_nonneg: "0 \<le> spec_shannon pw"
proof -
  have "(\<Sum>c\<in>set pw. nlogn (count_list pw c)) \<le> (\<Sum>c\<in>set pw. real (count_list pw c) * log 2 (real (length pw)))"
    by (intro sum_mono nlogn_count_le)
  also have "\<dots> = (\<Sum>c\<in>set pw. real (count_list pw c)) * log 2 (real (length pw))"
    by (simp add: sum_distrib_right)
  also have "(\<Sum>c\<in>set pw. real (count_list pw c)) = real (length pw)"
    using sum_count_set[of pw "set pw"] by (simp flip: of_nat_sum)
  finally show ?thesis by (simp add: spec_shannon_nlogn nlogn_def)
qed

lemma spec_shannon_distinct: "distinct pw \<Longrightarrow> spec_shannon pw = nlogn (length pw)"
proof -
  assume d: "distinct pw"
  have "nlogn (count_list pw c) = 0" if "c \<in> set pw" for c
  proof -
    have "count_list pw c = 1" using d that by (induction pw) auto
    then show ?thesis by (simp add: nlogn_def)
  qed
  then show ?thesis by (simp add: spec_shannon_nlogn)
qed

lemma sum_nlogn_insert:
  "(\<Sum>c\<in>set pw. nlogn (count_list pw c))
     = (\<Sum>c\<in>insert x (set pw) - {x}. nlogn (count_list pw c)) + nlogn (count_list pw x)"
proof (cases "x \<in> set pw")
  case True
  then have "insert x (set pw) = set pw" by auto
  then show ?thesis using True by (simp add: sum.remove[of "set pw" x])
next
  case False
  then show ?thesis by (simp add: nlogn_def)
qed

lemma spec_shannon_snoc: "spec_shannon pw \<le> spec_shannon (pw @ [x])"
proof -
  let ?A = "insert x (set pw) - {x}"
  have "(\<Sum>c\<in>set (pw @ [x]). nlogn (count_list (pw @ [x]) c))
      = (\<Sum>c\<in>?A. nlogn (count_list (pw @ [x]) c)) + nlogn (count_list (pw @ [x]) x)"
    by (simp add: sum.remove[of "insert x (set pw)" x])
  also have "(\<Sum>c\<in>?A. nlogn (count_list (pw @ [x]) c)) = (\<Sum>c\<in>?A. nlogn (count_list pw c))"
    by (intro sum.cong) auto
  finally have new: "(\<Sum>c\<in>set (pw @ [x]). nlogn (count_list (pw @ [x]) c))
      = (\<Sum>c\<in>?A. nlogn (count_list pw c)) + nlogn (Suc (count_list pw x))" by simp
  have "nlogn (Suc (count_list pw x)) - nlogn (count_list pw x) \<le> nlogn (Suc (length pw)) - nlogn (length pw)"
    by (intro nlogn_diff_mono count_le_length)
  then show ?thesis
    unfolding spec_shannon_nlogn new sum_nlogn_insert[of pw x] by simp
qed

lemma spec_shannon_append: "spec_shannon pw \<le> spec_shannon (pw @ s)"
proof (induction s rule: rev_induct)
  case Nil
  then show ?case by simp
next
  case (snoc x s)
  have "spec_shannon (pw @ s) \<le> spec_shannon ((pw @ s) @ [x])" by (rule spec_shannon_snoc)
  with snoc show ?case by simp
qed

section \<open>The character classes and the search-space estimate\<close>

lemma fst_detect_charsets:
  "fst (detect_charsets pw) =
     (if list_ex is_lower pw then 26 else 0) + (if list_ex is_upper pw then 26 else 0)
   + (if list_ex is_digit pw then 10 else 0)
   + (if list_ex (\<lambda>c. \<not> (is_lower c \<or> is_upper c \<or> is_digit c)) pw then 33 else 0)"
  by (simp add: detect_charsets_def)

lemma length_snd_detect_charsets:
  "int (length (snd (detect_charsets pw))) =
     (if list_ex is_lower pw then 1 else 0) + (if list_ex is_upper pw then 1 else 0)
   + (if list_ex is_digit pw then 1 else 0)
   + (if list_ex (\<lambda>c. \<not> (is_lower c \<or> is_upper c \<or> is_digit c)) pw then 1 else 0)"
  by (simp add: detect_charsets_def)

lemma set_snd_detect_charsets:
  "set (snd (detect_charsets pw)) =
     (if list_ex is_lower pw then {''lowercase''} else {}) \<union> (if list_ex is_upper pw then {''uppercase''} else {})
   \<union> (if list_ex is_digit pw then {''digits''} else {})
   \<union> (if list_ex (\<lambda>c. \<not> (is_lower c \<or> is_upper c \<or> is_digit c)) pw then {''symbols''} else {})"
  by (auto simp: detect_charsets_def)

lemma some_class: "pw \<noteq> [] \<Longrightarrow>
   list_ex is_lower pw \<or> list_ex is_upper pw \<or> list_ex is_digit pw
   \<or> list_ex (\<lambda>c. \<not> (is_lower c \<or> is_upper c \<or> is_digit c)) pw"
  by (cases pw) auto

lemma charset_size_ge: "pw \<noteq> [] \<Longrightarrow> 10 \<le> fst (detect_charsets pw)"
  using some_class[of pw] by (auto simp: fst_detect_charsets)

lemma space_bits_eq: "pw \<noteq> [] \<Longrightarrow>
  estimated_search_space_entropy_bits pw = real (length pw) * log 2 (real_of_int (fst (detect_charsets pw)))"
  using charset_size_ge[of pw] by (cases "detect_charsets pw") (auto simp: estimated_search_space_entropy_bits_def)

lemma space_bits_nonneg: "0 \<le> estimated_search_space_entropy_bits pw"
proof (cases "pw = []")
  case True
  then show ?thesis by (simp add: estimated_search_space_entropy_bits_def detect_charsets_def)
next
  case False
  have "1 \<le> real_of_int (fst (detect_charsets pw))" using charset_size_ge[OF False] by simp
  then have "0 \<le> log 2 (real_of_int (fst (detect_charsets pw)))" by simp
  then show ?thesis by (simp add: space_bits_eq[OF False])
qed

section \<open>The fields of the result\<close>

lemma fst_penalty_step': "fst (penalty_step L pw st) = fst st - penalties L pw"
  by (cases st) (simp add: fst_penalty_step)

lemma score_password_score:
  "pw \<noteq> [] \<Longrightarrow> score (score_password L pw) = max 0 (min 100 (earned_points pw - penalties L pw))"
  by (simp add: score_password_def Let_def split_beta earned_points_def fst_penalty_step')

lemma score_password_entropy:
  "pw \<noteq> [] \<Longrightarrow> entropy_bits (score_password L pw)
     = min (shannon_entropy_bits pw) (estimated_search_space_entropy_bits pw)"
  by (simp add: score_password_def Let_def split_beta)

lemma score_password_label:
  "pw \<noteq> [] \<Longrightarrow> label (score_password L pw) = label_of (score (score_password L pw))"
  by (simp add: score_password_def Let_def split_beta)

lemma score_password_feedback:
  "pw \<noteq> [] \<Longrightarrow> feedback (score_password L pw) =
     (if step_feedback L pw = [] \<and> 80 \<le> score (score_password L pw)
      then [''Great password. Consider using a password manager to generate/store unique passwords.'']
      else step_feedback L pw)"
  by (simp add: score_password_def Let_def split_beta step_feedback_def)

lemma earned_points_eq: "earned_points pw = length_points pw + variety_points pw + entropy_points pw"
  by (cases "detect_charsets pw")
     (simp add: earned_points_def length_points_def variety_points_def entropy_points_def
       fst_entropy_step fst_variety_step fst_length_step entropy_step_def variety_step_def length_step_def Let_def split_beta)

lemma length_points_bounds: "5 \<le> length_points pw \<and> length_points pw \<le> 40"
  by (simp add: length_points_def)

lemma variety_points_bounds: "0 \<le> variety_points pw \<and> variety_points pw \<le> 20"
  by (simp add: variety_points_def)

lemma entropy_bits_nonneg: "0 \<le> min (shannon_entropy_bits pw) (estimated_search_space_entropy_bits pw)"
  by (simp add: shannon_entropy_bits_eq spec_shannon_nonneg space_bits_nonneg)

lemma entropy_points_bounds: "0 \<le> entropy_points pw \<and> entropy_points pw \<le> 25"
  unfolding entropy_points_def using entropy_bits_nonneg[of pw]
  by (intro py_int_bounds) simp_all

lemma penalties_nonneg: "0 \<le> penalties L pw"
  by (simp add: penalties_def)

lemma snd_length_step:
  "snd (length_step len st) = snd st @
     (if len < 8 then [''Too short: aim for at least 12-16 characters.'']
      else if len < 12 then [''Decent length, but 12-16+ is better.''] else [])"
  by (cases st) (simp add: length_step_def)

lemma snd_variety_step:
  "snd (variety_step cs st) = snd st
     @ (if ''lowercase'' \<notin> set (snd cs) then [''add lowercase letters to increase variety.''] else [])
     @ (if ''uppercase'' \<notin> set (snd cs) then [''Add uppercase letters to increase variety.''] else [])
     @ (if ''digits'' \<notin> set (snd cs) then [''Add digits to increase variety.''] else [])
     @ (if ''symbols'' \<notin> set (snd cs) then [''Add symbols(e.g., !@#$) to increase variety.''] else [])"
  by (cases st; cases cs) (simp add: variety_step_def Let_def)

lemma snd_penalty_step:
  "snd (penalty_step L pw st) = snd st
     @ (if looks_like_common_password L pw
        then [''This looks like a common password or easy variation-avoid it.''] else [])
     @ (if has_repeated_runs pw 4 then [''Avoid repeated characters (e.g., aaaa, 1111).''] else [])
     @ (if has_keyboard_pattern L pw 4 then [''Avoid keyboard patterns (e.g., qwerty, asdf).''] else [])"
  by (cases st) (simp add: penalty_step_def Let_def)

lemma step_feedback_eq:
  "step_feedback L pw =
     (if int (length pw) < 8 then [''Too short: aim for at least 12-16 characters.'']
      else if int (length pw) < 12 then [''Decent length, but 12-16+ is better.''] else [])
     @ (if ''lowercase'' \<notin> set (snd (detect_charsets pw))
        then [''add lowercase letters to increase variety.''] else [])
     @ (if ''uppercase'' \<notin> set (snd (detect_charsets pw))
        then [''Add uppercase letters to increase variety.''] else [])
     @ (if ''digits'' \<notin> set (snd (detect_charsets pw))
        then [''Add digits to increase variety.''] else [])
     @ (if ''symbols'' \<notin> set (snd (detect_charsets pw))
        then [''Add symbols(e.g., !@#$) to increase variety.''] else [])
     @ (if looks_like_common_password L pw
        then [''This looks like a common password or easy variation-avoid it.''] else [])
     @ (if has_repeated_runs pw 4 then [''Avoid repeated characters (e.g., aaaa, 1111).''] else [])
     @ (if has_keyboard_pattern L pw 4 then [''Avoid keyboard patterns (e.g., qwerty, asdf).''] else [])"
  unfolding step_feedback_def snd_penalty_step snd_entropy_step snd_variety_step snd_length_step
  by simp

lemma no_step_feedback_general:
  assumes "12 \<le> length pw" "length pw \<le> 15"
    and "snd (detect_charsets pw) = [''lowercase'', ''uppercase'', ''digits'', ''symbols'']"
    and "\<not> looks_like_common_password L pw" "\<not> has_repeated_runs pw 4"
    and "\<not> has_keyboard_pattern L pw 4"
  shows "step_feedback L pw = []" "feedback (score_password L pw) = []"
    "earned_points pw = 32 + 20 + entropy_points pw" "score (score_password L pw) \<le> 77"
proof -
  have ne: "pw \<noteq> []" using assms(1) by auto
  show sf: "step_feedback L pw = []" using assms by (simp add: step_feedback_eq)
  show ep: "earned_points pw = 32 + 20 + entropy_points pw"
    using assms by (simp add: earned_points_eq length_points_def variety_points_def)
  show sc: "score (score_password L pw) \<le> 77"
    using entropy_points_bounds[of pw] penalties_nonneg[of L pw]
    by (simp add: score_password_score[OF ne] ep)
  show "feedback (score_password L pw) = []"
    using sf sc by (simp add: score_password_feedback[OF ne])
qed

section \<open>The signals that decide the result\<close>

lemma step_feedback_lines: "set (step_feedback L pw) \<subseteq> set feedback_lines"
proof -
  have sub: "set (if b then xs else ys) \<subseteq> A" if "set xs \<subseteq> A" "set ys \<subseteq> A"
    for b and xs ys :: "string list" and A
    using that by (cases b) simp_all
  show ?thesis
    unfolding step_feedback_eq set_append
    by (intro Un_least sub) (simp_all add: feedback_lines_def)
qed

lemma feedback_in_lines: "set (feedback (score_password L pw)) \<subseteq> set feedback_lines"
proof (cases "pw = []")
  case True
  then show ?thesis by (simp add: score_password_def feedback_lines_def)
next
  case False
  show ?thesis
  proof (cases "step_feedback L pw = [] \<and> 80 \<le> score (score_password L pw)")
    case True
    then show ?thesis by (simp add: score_password_feedback[OF False] feedback_lines_def)
  next
    case False
    then show ?thesis
      using step_feedback_lines[of L pw] \<open>pw \<noteq> []\<close>
      by (auto simp: score_password_feedback)
  qed
qed

lemma same_signals_same_result:
  assumes len: "length pw1 = length pw2"
    and cs: "detect_charsets pw1 = detect_charsets pw2"
    and sh: "shannon_entropy_bits pw1 = shannon_entropy_bits pw2"
    and common: "looks_like_common_password L pw1 = looks_like_common_password L pw2"
    and runs: "has_repeated_runs pw1 4 = has_repeated_runs pw2 4"
    and keyboard: "has_keyboard_pattern L pw1 4 = has_keyboard_pattern L pw2 4"
  shows "score_password L pw1 = score_password L pw2"
proof -
  have e: "pw1 = [] \<longleftrightarrow> pw2 = []" using len by auto
  have sp: "estimated_search_space_entropy_bits pw1 = estimated_search_space_entropy_bits pw2"
    unfolding estimated_search_space_entropy_bits_def cs len ..
  have ps: "penalty_step L pw1 st = penalty_step L pw2 st" for st
    by (simp add: penalty_step_def common runs keyboard)
  show ?thesis
    unfolding score_password_def e len cs sh sp ps ..
qed

section \<open>The common-password matcher\<close>

lemma translate_leet: "translate leet_map s = map leet_char s"
proof -
  have "dict_get leet_map c [c] = [leet_char c]" for c
    by (simp add: dict_get_def leet_map_def leet_char_def ustr_def)
  then show ?thesis by (simp add: translate_def)
qed

lemma py_strip_last: "py_strip s \<noteq> [] \<Longrightarrow> \<not> is_space (last (py_strip s))"
proof -
  assume ne: "py_strip s \<noteq> []"
  let ?d = "dropWhile is_space (rev (dropWhile is_space s))"
  have d: "?d \<noteq> []" using ne by (simp add: py_strip_def)
  then have "\<not> is_space (hd ?d)" by (rule hd_dropWhile)
  moreover have "last (py_strip s) = hd ?d" using d by (simp add: py_strip_def last_rev)
  ultimately show ?thesis by simp
qed

lemma py_strip_no_newline: "py_strip s \<noteq> [] \<Longrightarrow> last (py_strip s) \<noteq> 10"
  using py_strip_last[of s] by (auto simp: is_space_def)

lemma letter_not_digit: "is_letter c \<Longrightarrow> \<not> is_digit c"
  by (auto simp: is_letter_def is_lower_def is_upper_def is_digit_def)

lemma takeWhile_split:
  assumes "list_all P xs" "ys = [] \<or> \<not> P (hd ys)"
  shows "takeWhile P (xs @ ys) = xs" "dropWhile P (xs @ ys) = ys"
proof -
  have a: "\<forall>x\<in>set xs. P x" using assms(1) by (simp add: list_all_iff)
  have t: "takeWhile P ys = []" using assms(2) by (cases ys) auto
  have dr: "dropWhile P ys = ys" using assms(2) by (cases ys) auto
  show "takeWhile P (xs @ ys) = xs" using a t by (simp add: takeWhile_append2)
  show "dropWhile P (xs @ ys) = ys" using a dr by (simp add: dropWhile_append2)
qed

lemma rstrip_digits_split:
  assumes "letters \<noteq> []" "list_all is_letter letters" "list_all is_digit digits"
  shows "rstrip_digits (letters @ digits) = letters"
proof -
  have l: "\<not> is_digit (last letters)"
    using assms(1,2) by (intro letter_not_digit) (simp add: list_all_iff)
  have "dropWhile is_digit (rev digits @ rev letters) = rev letters"
    using assms l by (intro takeWhile_split(2)) (simp_all add: list_all_iff hd_rev)
  then show ?thesis by (simp add: rstrip_digits_def)
qed

lemma digit_not_newline: "is_digit c \<Longrightarrow> c \<noteq> 10"
  by (auto simp: is_digit_def)

lemma re_sub_split:
  assumes "letters \<noteq> []" "list_all is_letter letters" "list_all is_digit digits" "digits \<noteq> []"
  shows "re_sub_trailing_digits (letters @ digits) = letters"
proof -
  have "is_digit (last digits)" using assms(3,4) by (simp add: list_all_iff)
  then have "last (letters @ digits) \<noteq> 10" using assms(4) by (simp add: digit_not_newline)
  then show ?thesis
    using assms by (simp add: re_sub_trailing_digits_def rstrip_digits_split)
qed

lemma re_match_split:
  assumes "letters \<noteq> []" "list_all is_letter letters" "list_all is_digit digits"
    "1 \<le> length digits" "length digits \<le> 4"
  shows "re_match_letters_digits (letters @ digits)"
proof -
  have dne: "digits \<noteq> []" using assms(4) by auto
  then have "is_digit (hd digits)" using assms(3) by (simp add: list_all_iff)
  then have h: "\<not> is_letter (hd digits)" using letter_not_digit by blast
  have t1: "takeWhile is_letter (letters @ digits) = letters"
    and d1: "dropWhile is_letter (letters @ digits) = digits"
    using assms(2) h by (simp_all add: takeWhile_split)
  have t2: "takeWhile is_digit digits = digits" and d2: "dropWhile is_digit digits = []"
    using takeWhile_split[of is_digit digits "[]"] assms(3) by simp_all
  show ?thesis
    unfolding re_match_letters_digits_def Let_def t1 d1 t2 d2 at_dollar_def
    using assms(1,4,5) by simp
qed

lemma re_match_decompose:
  assumes m: "re_match_letters_digits raw" and nl: "raw = [] \<or> last raw \<noteq> 10"
  shows "\<exists>letters digits. raw = letters @ digits \<and> letters \<noteq> [] \<and> list_all is_letter letters
     \<and> 1 \<le> length digits \<and> length digits \<le> 4 \<and> list_all is_digit digits"
proof -
  let ?letters = "takeWhile is_letter raw"
  let ?r1 = "dropWhile is_letter raw"
  let ?digits = "takeWhile is_digit ?r1"
  let ?r2 = "dropWhile is_digit ?r1"
  have raw: "raw = ?letters @ ?digits @ ?r2" by simp
  from m have l: "?letters \<noteq> []" and d: "1 \<le> length ?digits" "length ?digits \<le> 4"
    and e: "at_dollar ?r2"
    by (simp_all add: re_match_letters_digits_def Let_def)
  have r2e: "?r2 = []"
  proof (rule ccontr)
    assume "?r2 \<noteq> []"
    then have r2: "?r2 = [10]" using e unfolding at_dollar_def by blast
    have "last raw = last (?letters @ ?digits @ ?r2)" by simp
    also have "\<dots> = 10" unfolding r2 by simp
    finally have "last raw = 10" .
    moreover have "raw \<noteq> []" using l by auto
    ultimately show False using nl by simp
  qed
  have "raw = ?letters @ ?digits"
    by (metis r2e append_Nil2 takeWhile_dropWhile_id)
  moreover have "list_all is_letter ?letters" by (auto simp: list_all_iff dest: set_takeWhileD)
  moreover have "list_all is_digit ?digits" by (auto simp: list_all_iff dest: set_takeWhileD)
  ultimately show ?thesis using l d by blast
qed

lemma digit_rule_iff:
  assumes nl: "raw = [] \<or> last raw \<noteq> 10"
  shows "re_match_letters_digits raw \<and> py_lower L (re_sub_trailing_digits raw) \<in> COMMON_PASSWORDS
     \<longleftrightarrow> digit_variant L raw"
proof
  assume a: "re_match_letters_digits raw \<and> py_lower L (re_sub_trailing_digits raw) \<in> COMMON_PASSWORDS"
  then obtain letters digits where s: "raw = letters @ digits" "letters \<noteq> []"
      "list_all is_letter letters" "1 \<le> length digits" "length digits \<le> 4" "list_all is_digit digits"
    using re_match_decompose[OF _ nl] by blast
  have dne: "digits \<noteq> []" using s(4) by auto
  have "re_sub_trailing_digits raw = letters"
    unfolding s(1) using s dne by (intro re_sub_split)
  then have "py_lower L letters \<in> COMMON_PASSWORDS" using a by simp
  then show "digit_variant L raw" unfolding digit_variant_def using s by blast
next
  assume "digit_variant L raw"
  then obtain letters digits where s: "raw = letters @ digits" "letters \<noteq> []"
      "list_all is_letter letters" "1 \<le> length digits" "length digits \<le> 4" "list_all is_digit digits"
      "py_lower L letters \<in> COMMON_PASSWORDS"
    unfolding digit_variant_def by blast
  have dne: "digits \<noteq> []" using s(4) by auto
  have "re_match_letters_digits raw" unfolding s(1) using s by (intro re_match_split)
  moreover have "re_sub_trailing_digits raw = letters"
    unfolding s(1) using s dne by (intro re_sub_split)
  ultimately show "re_match_letters_digits raw \<and> py_lower L (re_sub_trailing_digits raw) \<in> COMMON_PASSWORDS"
    using s(7) by simp
qed

lemma looks_like_common_password_rules:
  "looks_like_common_password L pw \<longleftrightarrow>
     exact_match L pw \<or> digit_variant L (py_strip pw) \<or> leet_variant L (py_strip pw)"
proof -
  have nl: "py_strip pw = [] \<or> last (py_strip pw) \<noteq> 10" using py_strip_no_newline[of pw] by blast
  show ?thesis
    unfolding looks_like_common_password_def Let_def exact_match_def leet_variant_def translate_leet
      digit_rule_iff[OF nl, of L, symmetric]
    by auto
qed

lemma looks_like_common_nonempty: "looks_like_common_password L pw \<Longrightarrow> pw \<noteq> []"
  by (auto simp: common_defs ustr_def)

lemma common_line_in_feedback:
  assumes "looks_like_common_password L pw"
  shows "''This looks like a common password or easy variation-avoid it.''
           \<in> set (feedback (score_password L pw))"
proof -
  have ne: "pw \<noteq> []" using assms by (rule looks_like_common_nonempty)
  have m: "''This looks like a common password or easy variation-avoid it.''
      \<in> set (step_feedback L pw)"
    unfolding step_feedback_eq using assms by simp
  then have "step_feedback L pw \<noteq> []" by auto
  then show ?thesis using m by (simp add: score_password_feedback[OF ne])
qed

section \<open>The repeated-run check\<close>

text \<open>A run is found exactly when four copies of a character other than the newline stand
  in a row somewhere in the password.\<close>

lemma re_search_iff: "re_search m s \<longleftrightarrow> (\<exists>pre post. s = pre @ post \<and> m post)"
proof (induction s)
  case Nil
  then show ?case by simp
next
  case (Cons c s)
  show ?case
  proof
    assume "re_search m (c # s)"
    then consider "m (c # s)" | "re_search m s" by auto
    then show "\<exists>pre post. c # s = pre @ post \<and> m post"
    proof cases
      case 1
      then have "c # s = [] @ (c # s) \<and> m (c # s)" by simp
      then show ?thesis by blast
    next
      case 2
      then obtain pre post where "s = pre @ post" "m post" using Cons.IH by blast
      then have "c # s = (c # pre) @ post \<and> m post" by simp
      then show ?thesis by blast
    qed
  next
    assume "\<exists>pre post. c # s = pre @ post \<and> m post"
    then obtain pre post where p: "c # s = pre @ post" "m post" by blast
    show "re_search m (c # s)"
    proof (cases pre)
      case Nil
      with p(1) have e: "post = c # s" by simp
      show ?thesis using p(2) unfolding e by simp
    next
      case (Cons a pre')
      then have "s = pre' @ post" using p(1) by simp
      then have "re_search m s" using Cons.IH p(2) by blast
      then show ?thesis by simp
    qed
  qed
qed

lemma takeWhile_eq_replicate: "takeWhile (\<lambda>d. d = c) xs = replicate (length (takeWhile (\<lambda>d. d = c) xs)) c"
  by (induction xs) auto

lemma run_at_iff: "run_at k s \<longleftrightarrow> (\<exists>c post. c \<noteq> 10 \<and> s = replicate (Suc k) c @ post)"
proof
  assume r: "run_at k s"
  then obtain c rest where s: "s = c # rest" by (cases s) auto
  let ?t = "takeWhile (\<lambda>d. d = c) rest"
  from r s have c: "c \<noteq> 10" and k: "k \<le> length ?t" by (simp_all add: dot_matches_def)
  have "rest = ?t @ dropWhile (\<lambda>d. d = c) rest" by simp
  also have "?t = replicate (length ?t) c" by (rule takeWhile_eq_replicate)
  also have "replicate (length ?t) c = replicate k c @ replicate (length ?t - k) c"
    using k by (simp flip: replicate_add)
  finally have "s = replicate (Suc k) c @ (replicate (length ?t - k) c @ dropWhile (\<lambda>d. d = c) rest)"
    using s by simp
  then show "\<exists>c post. c \<noteq> 10 \<and> s = replicate (Suc k) c @ post" using c by blast
next
  assume "\<exists>c post. c \<noteq> 10 \<and> s = replicate (Suc k) c @ post"
  then obtain c post where c: "c \<noteq> 10" and s: "s = c # (replicate k c @ post)" by auto
  have "takeWhile (\<lambda>d. d = c) (replicate k c @ post) = replicate k c @ takeWhile (\<lambda>d. d = c) post"
    by (induction k) simp_all
  then show "run_at k s" using c s by (simp add: dot_matches_def)
qed

lemma has_repeated_runs_iff:
  "has_repeated_runs pw 4 \<longleftrightarrow> (\<exists>pre c post. c \<noteq> 10 \<and> pw = pre @ replicate 4 c @ post)"
proof -
  have "has_repeated_runs pw 4 \<longleftrightarrow> re_search (run_at 3) pw"
    by (simp add: has_repeated_runs_def)
  also have "\<dots> \<longleftrightarrow> (\<exists>pre post. pw = pre @ post \<and> (\<exists>c post'. c \<noteq> 10 \<and> post = replicate (Suc 3) c @ post'))"
    unfolding re_search_iff run_at_iff ..
  also have "Suc 3 = 4" by simp
  finally show ?thesis by blast
qed

lemma runs_line_in_feedback:
  assumes "has_repeated_runs pw 4"
  shows "''Avoid repeated characters (e.g., aaaa, 1111).'' \<in> set (feedback (score_password L pw))"
proof -
  have ne: "pw \<noteq> []" using assms by (auto simp: has_repeated_runs_def)
  have m: "''Avoid repeated characters (e.g., aaaa, 1111).'' \<in> set (step_feedback L pw)"
    unfolding step_feedback_eq using assms by simp
  then have "step_feedback L pw \<noteq> []" by auto
  then show ?thesis using m by (simp add: score_password_feedback[OF ne])
qed

section \<open>Appending characters\<close>

lemma length_points_append: "length_points pw \<le> length_points (pw @ s)"
  by (simp add: length_points_def)

lemma classes_append:
  "int (length (snd (detect_charsets pw))) \<le> int (length (snd (detect_charsets (pw @ s))))"
  unfolding length_snd_detect_charsets by simp

lemma variety_points_append: "variety_points pw \<le> variety_points (pw @ s)"
  using classes_append[of pw s] by (simp add: variety_points_def)

lemma charset_size_append: "fst (detect_charsets pw) \<le> fst (detect_charsets (pw @ s))"
  unfolding fst_detect_charsets by simp

lemma space_bits_append:
  "estimated_search_space_entropy_bits pw \<le> estimated_search_space_entropy_bits (pw @ s)"
proof (cases "pw = []")
  case True
  then show ?thesis
    using space_bits_nonneg[of s]
    by (simp add: estimated_search_space_entropy_bits_def detect_charsets_def)
next
  case False
  then have ne: "pw @ s \<noteq> []" by simp
  have sz: "10 \<le> fst (detect_charsets pw)" by (rule charset_size_ge[OF False])
  have "log 2 (real_of_int (fst (detect_charsets pw)))
      \<le> log 2 (real_of_int (fst (detect_charsets (pw @ s))))"
    using sz charset_size_append[of pw s] by (intro log_mono) simp_all
  moreover have "0 \<le> log 2 (real_of_int (fst (detect_charsets pw)))" using sz by simp
  moreover have "real (length pw) \<le> real (length (pw @ s))" by simp
  ultimately have "real (length pw) * log 2 (real_of_int (fst (detect_charsets pw)))
      \<le> real (length (pw @ s)) * log 2 (real_of_int (fst (detect_charsets (pw @ s))))"
    by (intro mult_mono) simp_all
  then show ?thesis by (simp only: space_bits_eq[OF False] space_bits_eq[OF ne])
qed

lemma shannon_append: "shannon_entropy_bits pw \<le> shannon_entropy_bits (pw @ s)"
  by (simp add: shannon_entropy_bits_eq spec_shannon_append)

lemma entropy_points_append: "entropy_points pw \<le> entropy_points (pw @ s)"
proof -
  have "min (shannon_entropy_bits pw) (estimated_search_space_entropy_bits pw)
      \<le> min (shannon_entropy_bits (pw @ s)) (estimated_search_space_entropy_bits (pw @ s))"
    using shannon_append[of pw s] space_bits_append[of pw s] by (simp add: min_le_iff_disj)
  then have "min (shannon_entropy_bits pw) (estimated_search_space_entropy_bits pw) / 80 * 25
      \<le> min (shannon_entropy_bits (pw @ s)) (estimated_search_space_entropy_bits (pw @ s)) / 80 * 25"
    by (intro mult_right_mono divide_right_mono) simp_all
  then have "min 25 (min (shannon_entropy_bits pw) (estimated_search_space_entropy_bits pw) / 80 * 25)
      \<le> min 25 (min (shannon_entropy_bits (pw @ s)) (estimated_search_space_entropy_bits (pw @ s)) / 80 * 25)"
    by (rule min.mono[OF order_refl])
  then show ?thesis unfolding entropy_points_def by (rule py_int_mono)
qed

lemma earned_points_append: "earned_points pw \<le> earned_points (pw @ s)"
  using length_points_append[of pw s] variety_points_append[of pw s] entropy_points_append[of pw s]
  by (simp add: earned_points_eq)

lemma score_nonneg: "0 \<le> score (score_password L pw)"
proof (cases "pw = []")
  case True
  then show ?thesis by (simp add: score_password_def)
next
  case False
  then show ?thesis by (simp add: score_password_score)
qed

lemma score_append_mono:
  assumes "penalties L (pw @ s) \<le> penalties L pw"
  shows "score (score_password L pw) \<le> score (score_password L (pw @ s))"
proof (cases "pw = []")
  case True
  have "0 \<le> score (score_password L (pw @ s))" by (rule score_nonneg)
  then show ?thesis using True by (simp add: score_password_def)
next
  case False
  then have ne: "pw @ s \<noteq> []" by simp
  have "earned_points pw - penalties L pw \<le> earned_points (pw @ s) - penalties L (pw @ s)"
    using earned_points_append[of pw s] assms by simp
  then show ?thesis
    unfolding score_password_score[OF False] score_password_score[OF ne] by simp
qed

section \<open>Evaluation on concrete passwords\<close>

lemma shannon_distinct: "distinct pw \<Longrightarrow> shannon_entropy_bits pw = nlogn (length pw)"
  by (simp add: shannon_entropy_bits_eq spec_shannon_distinct)

lemma entropy_points_zero: "shannon_entropy_bits pw = 0 \<Longrightarrow> entropy_points pw = 0"
  using space_bits_nonneg[of pw] by (simp add: entropy_points_def py_int_def min_def)

lemma log2_16: "log 2 16 = (4::real)"
proof -
  have "log 2 ((2::real) ^ 4) = 4" by (subst log_pow_cancel) simp_all
  then show ?thesis by simp
qed

lemma log2_95: "(4::real) \<le> log 2 95"
proof -
  have "log 2 16 \<le> log 2 (95::real)" by (intro log_mono) simp_all
  then show ?thesis by (simp add: log2_16)
qed

text \<open>The password \<^verbatim>\<open>T!m3-Wh4l_G0d#97\<close>: sixteen distinct characters of all four classes.\<close>

lemma strong16_common: "\<not> looks_like_common_password L (ustr ''T!m3-Wh4l_G0d#97'')"
  by (simp add: common_defs ustr_def char_defs)

lemma strong16_runs: "\<not> has_repeated_runs (ustr ''T!m3-Wh4l_G0d#97'') 4"
  by (simp add: has_repeated_runs_def ustr_def char_defs)

lemma strong16_keyboard: "\<not> has_keyboard_pattern L (ustr ''T!m3-Wh4l_G0d#97'') 4"
  by (simp add: keyboard_defs ustr_def char_defs)

lemma strong16_charsets:
  "detect_charsets (ustr ''T!m3-Wh4l_G0d#97'')
     = (95, [''lowercase'', ''uppercase'', ''digits'', ''symbols''])"
  by (simp add: detect_charsets_def ustr_def char_defs)

lemma strong16_distinct: "distinct (ustr ''T!m3-Wh4l_G0d#97'')"
  by (simp add: ustr_def)

lemma strong16_length: "length (ustr ''T!m3-Wh4l_G0d#97'') = 16"
  by (simp add: ustr_def)

lemma strong16_score:
  "score (score_password L (ustr ''T!m3-Wh4l_G0d#97'')) = 80
   \<and> label (score_password L (ustr ''T!m3-Wh4l_G0d#97'')) = ''Very Strong''"
proof -
  let ?pw = "ustr ''T!m3-Wh4l_G0d#97''"
  have ne: "?pw \<noteq> []" by (simp add: ustr_def)
  have sh: "shannon_entropy_bits ?pw = 64"
    using shannon_distinct[OF strong16_distinct] by (simp add: strong16_length nlogn_def log2_16)
  have sp: "estimated_search_space_entropy_bits ?pw = 16 * log 2 95"
    by (simp add: space_bits_eq[OF ne] strong16_charsets strong16_length)
  have e: "entropy_points ?pw = 20"
    using log2_95 by (simp add: entropy_points_def sh sp py_int_def min_def)
  have l: "length_points ?pw = 40" by (simp add: length_points_def strong16_length)
  have v: "variety_points ?pw = 20" by (simp add: variety_points_def strong16_charsets)
  have s: "score (score_password L ?pw) = 80"
    by (simp add: score_password_score[OF ne] earned_points_eq e l v penalties_def
        strong16_common strong16_runs strong16_keyboard)
  show ?thesis using s by (simp add: score_password_label[OF ne] label_of_def)
qed

text \<open>The password \<^verbatim>\<open>Xk9#mQ2$vL7!\<close>: twelve characters of all four classes.\<close>

lemma plain12_facts:
  "length (ustr ''Xk9#mQ2$vL7!'') = 12"
  "snd (detect_charsets (ustr ''Xk9#mQ2$vL7!'')) = [''lowercase'', ''uppercase'', ''digits'', ''symbols'']"
  "\<not> looks_like_common_password L (ustr ''Xk9#mQ2$vL7!'')"
  "\<not> has_repeated_runs (ustr ''Xk9#mQ2$vL7!'') 4"
  "\<not> has_keyboard_pattern L (ustr ''Xk9#mQ2$vL7!'') 4"
      apply (simp add: ustr_def)
     apply (simp add: detect_charsets_def ustr_def char_defs)
    apply (simp add: common_defs ustr_def char_defs)
   apply (simp add: has_repeated_runs_def ustr_def char_defs)
  apply (simp add: keyboard_defs ustr_def char_defs)
  done

text \<open>The password \<^verbatim>\<open>kitten\<close> and its extension \<^verbatim>\<open>kitten7!\<close>.\<close>

lemma kitten_facts:
  "set (snd (detect_charsets (ustr ''kitten''))) \<subset> set (snd (detect_charsets (ustr ''kitten'' @ ustr ''7!'')))"
  "\<not> has_repeated_runs (ustr ''kitten'' @ ustr ''7!'') 4"
  "\<not> has_keyboard_pattern L (ustr ''kitten'') 4"
  "\<not> has_keyboard_pattern L (ustr ''kitten'' @ ustr ''7!'') 4"
  "\<not> looks_like_common_password L (ustr ''kitten'')"
  "\<not> looks_like_common_password L (ustr ''kitten'' @ ustr ''7!'')"
       apply (simp add: detect_charsets_def ustr_def char_defs)
       apply blast
      apply (simp add: has_repeated_runs_def ustr_def char_defs)
     apply (simp add: keyboard_defs ustr_def char_defs)
    apply (simp add: keyboard_defs ustr_def char_defs)
   apply (simp add: common_defs ustr_def char_defs)
  apply (simp add: common_defs ustr_def char_defs)
  done

text \<open>The passwords \<^verbatim>\<open>abcd\<close> and \<^verbatim>\<open>abce\<close>: the first holds a sequence, the second none.\<close>

lemma abcd_seq: "has_sequence L (ustr ''abcd'') 4"
  by (simp add: sequence_defs ustr_def char_defs)

lemma abce_seq: "\<not> has_sequence L (ustr ''abce'') 4"
  by (simp add: sequence_defs ustr_def char_defs)

lemma abcd_abce_facts:
  "length (ustr ''abcd'') = length (ustr ''abce'')"
  "detect_charsets (ustr ''abcd'') = detect_charsets (ustr ''abce'')"
  "shannon_entropy_bits (ustr ''abcd'') = shannon_entropy_bits (ustr ''abce'')"
  "looks_like_common_password L (ustr ''abcd'') = looks_like_common_password L (ustr ''abce'')"
  "has_repeated_runs (ustr ''abcd'') 4 = has_repeated_runs (ustr ''abce'') 4"
  "has_keyboard_pattern L (ustr ''abcd'') 4 = has_keyboard_pattern L (ustr ''abce'') 4"
       apply (simp add: ustr_def)
      apply (simp add: detect_charsets_def ustr_def char_defs)
     apply (simp add: shannon_distinct ustr_def)
    apply (simp add: common_defs ustr_def char_defs)
   apply (simp add: has_repeated_runs_def ustr_def char_defs)
  apply (simp add: keyboard_defs ustr_def char_defs)
  done

text \<open>The examples of the common-password rules, and \<^verbatim>\<open>password123\<close> after a space.\<close>

lemma common_examples:
  "looks_like_common_password L (ustr ''password'')"
  "looks_like_common_password L (ustr ''Password123'')"
  "looks_like_common_password L (ustr ''p@ssw0rd'')"
  by (simp_all add: common_defs ustr_def char_defs)

lemma padded_facts:
  "looks_like_common_password L (ustr '' password123'')"
  "\<not> exact_match L (ustr '' password123'')"
  "\<not> leet_variant L (ustr '' password123'')"
    apply (simp add: common_defs ustr_def char_defs)
   apply (simp add: exact_match_def py_strip_def py_lower_def COMMON_PASSWORDS_def ustr_def char_defs)
  apply (simp add: leet_variant_def leet_char_def py_lower_def COMMON_PASSWORDS_def ustr_def char_defs)
  done

lemma padded_not_digit_variant: "\<not> digit_variant L (ustr '' password123'')"
proof
  assume "digit_variant L (ustr '' password123'')"
  then obtain letters digits where s: "ustr '' password123'' = letters @ digits"
      "letters \<noteq> []" "list_all is_letter letters"
    unfolding digit_variant_def by blast
  have "hd (letters @ digits) = hd letters" using s(2) by simp
  then have "hd letters = 32" using s(1) by (simp add: ustr_def flip: s(1))
  moreover have "is_letter (hd letters)" using s(2,3) by (simp add: list_all_iff)
  ultimately show False by (simp add: char_defs)
qed

text \<open>The examples of the repeated-run check.\<close>

lemma runs_examples:
  "has_repeated_runs (ustr ''aaaa1234'') 4" "\<not> has_repeated_runs (ustr ''aaa1234b'') 4"
  by (simp_all add: has_repeated_runs_def ustr_def char_defs)

text \<open>The repeated-run check at run lengths other than the default.\<close>

lemma has_repeated_runs_other_lengths:
  "\<not> has_repeated_runs (ustr ''a'') 0"
  "has_repeated_runs (ustr ''aa{-1,}'') 0"
  "has_repeated_runs (ustr ''xaa{-1,}y'') 0"
  "\<not> has_repeated_runs (ustr ''aa{-1,'') 0"
  "has_repeated_runs (ustr ''aa{-3,}'') (-2)"
  "\<not> has_repeated_runs (ustr ''aa{-1,}'') (-2)"
  "has_repeated_runs (ustr ''a'') 1"
  "\<not> has_repeated_runs [10] 1"
  "\<not> has_repeated_runs [] 1"
  "\<not> has_repeated_runs (ustr ''ab'') 2"
  "has_repeated_runs (ustr ''aa'') 2"
  by (simp_all add: has_repeated_runs_def py_str_def decimal.simps ustr_def char_defs)

section \<open>The empty password\<close>

text \<open>
  Claim C2. The empty password returns at once: score 0, label "Very Weak", 0.0 bits of
  entropy, and the single feedback line "Password is empty". No other line is added and
  no penalty is taken.
\<close>

theorem score_password_empty:
  "score_password L [] =
     \<lparr>score = 0, label = ''Very Weak'', entropy_bits = 0, feedback = [''Password is empty'']\<rparr>"
  by (simp add: score_password_def)

section \<open>Bounds on the result\<close>

text \<open>
  Claim C1. For every input string the score lies between 0 and 100 and the entropy
  estimate is not negative.
\<close>

theorem score_password_bounds:
  "0 \<le> score (score_password L pw) \<and> score (score_password L pw) \<le> 100
   \<and> 0 \<le> entropy_bits (score_password L pw)"
proof (cases "pw = []")
  case True
  then show ?thesis by (simp add: score_password_def)
next
  case False
  then show ?thesis
    by (simp add: score_password_score score_password_entropy entropy_bits_nonneg
          del: min_less_iff_conj min.bounded_iff)
qed

text \<open>
  Claim C9. The score never exceeds 85: at most 40 points for the length, 20 for the
  variety and 25 for the entropy, and penalties only subtract. So the upper clamp at 100
  never binds, and a result labelled "Very Strong" has a score from 80 to 85.
\<close>

theorem score_password_at_most_85:
  "score (score_password L pw) \<le> 85
   \<and> length_points pw \<le> 40 \<and> variety_points pw \<le> 20 \<and> entropy_points pw \<le> 25
   \<and> 0 \<le> penalties L pw
   \<and> (pw \<noteq> [] \<longrightarrow>
        earned_points pw = length_points pw + variety_points pw + entropy_points pw
        \<and> earned_points pw - penalties L pw \<le> 85
        \<and> score (score_password L pw) = max 0 (earned_points pw - penalties L pw))
   \<and> (label (score_password L pw) = ''Very Strong'' \<longrightarrow>
        80 \<le> score (score_password L pw) \<and> score (score_password L pw) \<le> 85)"
proof (cases "pw = []")
  case True
  then show ?thesis
    using length_points_bounds[of pw] variety_points_bounds[of pw] entropy_points_bounds[of pw]
      penalties_nonneg[of L pw]
    by (simp add: score_password_def)
next
  case False
  have b: "earned_points pw - penalties L pw \<le> 85"
    using length_points_bounds[of pw] variety_points_bounds[of pw] entropy_points_bounds[of pw]
      penalties_nonneg[of L pw] by (simp add: earned_points_eq)
  have s: "score (score_password L pw) = max 0 (earned_points pw - penalties L pw)"
    using b by (simp add: score_password_score[OF False])
  have l: "80 \<le> score (score_password L pw)" if "label (score_password L pw) = ''Very Strong''"
    using that by (simp add: score_password_label[OF False] label_of_def Let_def split: if_splits)
  from b s l show ?thesis
    using length_points_bounds[of pw] variety_points_bounds[of pw] entropy_points_bounds[of pw]
      penalties_nonneg[of L pw]
    by (auto simp: earned_points_eq)
qed

theorem score_password_at_most_85_witness:
  "ustr ''T!m3-Wh4l_G0d#97'' \<noteq> []
   \<and> label (score_password id (ustr ''T!m3-Wh4l_G0d#97'')) = ''Very Strong''
   \<and> score (score_password id (ustr ''T!m3-Wh4l_G0d#97'')) = 80
   \<and> score (score_password id (ustr ''T!m3-Wh4l_G0d#97'')) \<le> 85
   \<and> earned_points (ustr ''T!m3-Wh4l_G0d#97'') - penalties id (ustr ''T!m3-Wh4l_G0d#97'') \<le> 85"
  using score_password_at_most_85[of id "ustr ''T!m3-Wh4l_G0d#97''"]
    strong16_score[of id]
  by (simp add: ustr_def)

section \<open>The label\<close>

text \<open>
  Claim C3 says that the label follows five disjoint bins of the score. The source
  assigns the label in four \<^verbatim>\<open>if\<close> statements in a row instead of one
  \<^verbatim>\<open>if\<close>/\<^verbatim>\<open>elif\<close> chain, so the last one decides alone: every score below 80 is
  labelled "Strong". The one-letter password \<^verbatim>\<open>a\<close> scores 10 and is labelled "Strong",
  where the claim asks for "Very Weak".
\<close>

theorem score_password_label_a:
  "score (score_password L (ustr ''a'')) = 10 \<and> label (score_password L (ustr ''a'')) = ''Strong''"
proof -
  let ?pw = "ustr ''a''"
  have ne: "?pw \<noteq> []" by (simp add: ustr_def)
  have "distinct ?pw" by (simp add: ustr_def)
  then have "shannon_entropy_bits ?pw = 0" by (simp add: shannon_distinct nlogn_def ustr_def)
  then have e: "entropy_points ?pw = 0" by (rule entropy_points_zero)
  have l: "length_points ?pw = 5" by (simp add: length_points_def ustr_def)
  have v: "variety_points ?pw = 5"
    by (simp add: variety_points_def detect_charsets_def ustr_def char_defs)
  have c: "\<not> looks_like_common_password L ?pw" by (simp add: common_defs ustr_def char_defs)
  have r: "\<not> has_repeated_runs ?pw 4" by (simp add: has_repeated_runs_def ustr_def char_defs)
  have k: "\<not> has_keyboard_pattern L ?pw 4" by (simp add: keyboard_defs ustr_def char_defs)
  have s: "score (score_password L ?pw) = 10"
    by (simp add: score_password_score[OF ne] earned_points_eq e l v penalties_def c r k)
  show ?thesis using s by (simp add: score_password_label[OF ne] label_of_def)
qed

section \<open>A password without feedback\<close>

text \<open>
  Claim C10. Some non-empty password gets an empty feedback list: a password of 12 to 15
  characters with all four classes that meets no penalty check produces no feedback in any
  step, and its score is at most 32 + 20 + 25 = 77, below the 80 that the congratulation
  needs.
\<close>

theorem no_step_feedback:
  "(\<exists>pw. pw \<noteq> [] \<and> feedback (score_password L pw) = [])
   \<and> (\<forall>pw. 12 \<le> length pw \<and> length pw \<le> 15
          \<and> snd (detect_charsets pw) = [''lowercase'', ''uppercase'', ''digits'', ''symbols'']
          \<and> \<not> looks_like_common_password L pw \<and> \<not> has_repeated_runs pw 4
          \<and> \<not> has_keyboard_pattern L pw 4
        \<longrightarrow> step_feedback L pw = [] \<and> feedback (score_password L pw) = []
            \<and> earned_points pw = 32 + 20 + entropy_points pw \<and> entropy_points pw \<le> 25
            \<and> score (score_password L pw) \<le> 77)"
proof (intro conjI exI[of _ "ustr ''Xk9#mQ2$vL7!''"] allI impI)
  show "ustr ''Xk9#mQ2$vL7!'' \<noteq> []" by (simp add: ustr_def)
  show "feedback (score_password L (ustr ''Xk9#mQ2$vL7!'')) = []"
    by (rule no_step_feedback_general(2)) (simp_all add: plain12_facts)
next
  fix pw
  assume a: "12 \<le> length pw \<and> length pw \<le> 15
          \<and> snd (detect_charsets pw) = [''lowercase'', ''uppercase'', ''digits'', ''symbols'']
          \<and> \<not> looks_like_common_password L pw \<and> \<not> has_repeated_runs pw 4
          \<and> \<not> has_keyboard_pattern L pw 4"
  then show "step_feedback L pw = []" by (intro no_step_feedback_general(1)) simp_all
  from a show "feedback (score_password L pw) = []" by (intro no_step_feedback_general(2)) simp_all
  from a show "earned_points pw = 32 + 20 + entropy_points pw"
    by (intro no_step_feedback_general(3)[of pw L]) simp_all
  show "entropy_points pw \<le> 25" using entropy_points_bounds[of pw] by simp
  from a show "score (score_password L pw) \<le> 77" by (intro no_step_feedback_general(4)) simp_all
qed

theorem no_step_feedback_witness:
  "ustr ''Xk9#mQ2$vL7!'' \<noteq> []
   \<and> 12 \<le> length (ustr ''Xk9#mQ2$vL7!'') \<and> length (ustr ''Xk9#mQ2$vL7!'') \<le> 15
   \<and> snd (detect_charsets (ustr ''Xk9#mQ2$vL7!'')) = [''lowercase'', ''uppercase'', ''digits'', ''symbols'']
   \<and> \<not> looks_like_common_password id (ustr ''Xk9#mQ2$vL7!'')
   \<and> \<not> has_repeated_runs (ustr ''Xk9#mQ2$vL7!'') 4
   \<and> \<not> has_keyboard_pattern id (ustr ''Xk9#mQ2$vL7!'') 4
   \<and> feedback (score_password id (ustr ''Xk9#mQ2$vL7!'')) = []
   \<and> score (score_password id (ustr ''Xk9#mQ2$vL7!'')) \<le> 77"
proof -
  have h: "12 \<le> length (ustr ''Xk9#mQ2$vL7!'') \<and> length (ustr ''Xk9#mQ2$vL7!'') \<le> 15
   \<and> snd (detect_charsets (ustr ''Xk9#mQ2$vL7!'')) = [''lowercase'', ''uppercase'', ''digits'', ''symbols'']
   \<and> \<not> looks_like_common_password id (ustr ''Xk9#mQ2$vL7!'')
   \<and> \<not> has_repeated_runs (ustr ''Xk9#mQ2$vL7!'') 4
   \<and> \<not> has_keyboard_pattern id (ustr ''Xk9#mQ2$vL7!'') 4"
    by (simp add: plain12_facts)
  have ne: "ustr ''Xk9#mQ2$vL7!'' \<noteq> []" by (simp add: ustr_def)
  from no_step_feedback[of id, THEN conjunct2, rule_format, OF h] h ne show ?thesis by simp
qed

section \<open>Monotonicity\<close>

text \<open>
  Claim C8. Let a password be extended by appending characters that bring in a new
  character class and create no repeated run, and let neither string match a keyboard
  pattern or a common password. Then the score of the extension is at least the score of
  the password (both are clamped at 100). Sequence detection needs no hypothesis: it
  plays no part in the score.
\<close>

theorem score_password_monotone:
  assumes new_class: "set (snd (detect_charsets pw)) \<subset> set (snd (detect_charsets (pw @ suffix)))"
    and no_new_run: "has_repeated_runs (pw @ suffix) 4 \<Longrightarrow> has_repeated_runs pw 4"
    and no_keyboard: "\<not> has_keyboard_pattern L pw 4" "\<not> has_keyboard_pattern L (pw @ suffix) 4"
    and no_common: "\<not> looks_like_common_password L pw" "\<not> looks_like_common_password L (pw @ suffix)"
  shows "score (score_password L pw) \<le> score (score_password L (pw @ suffix))"
proof -
  have "penalties L (pw @ suffix) \<le> penalties L pw"
    using no_new_run no_keyboard no_common by (auto simp: penalties_def)
  then show ?thesis by (rule score_append_mono)
qed

theorem score_password_monotone_witness:
  "set (snd (detect_charsets (ustr ''kitten''))) \<subset> set (snd (detect_charsets (ustr ''kitten'' @ ustr ''7!'')))
   \<and> \<not> has_repeated_runs (ustr ''kitten'' @ ustr ''7!'') 4
   \<and> \<not> has_keyboard_pattern id (ustr ''kitten'') 4
   \<and> \<not> has_keyboard_pattern id (ustr ''kitten'' @ ustr ''7!'') 4
   \<and> \<not> looks_like_common_password id (ustr ''kitten'')
   \<and> \<not> looks_like_common_password id (ustr ''kitten'' @ ustr ''7!'')
   \<and> score (score_password id (ustr ''kitten'')) \<le> score (score_password id (ustr ''kitten'' @ ustr ''7!''))"
  using score_password_monotone[of "ustr ''kitten''" "ustr ''7!''" id] kitten_facts
  by simp

section \<open>Sequence detection\<close>

text \<open>
  Claim C5. The result of \<^verbatim>\<open>score_password\<close> does not depend on sequence detection:
  \<^verbatim>\<open>has_sequence\<close> is not part of the scoring combination, no penalty is taken for a
  sequence and no feedback line about one is added. Stated on the model: two passwords
  that agree on the length, the character classes, the Shannon estimate and the three
  checks that are penalised get the same result, whatever \<^verbatim>\<open>has_sequence\<close> says of
  them; every feedback line is one of the literals of \<open>feedback_lines\<close>, none of which
  is about sequences; and the score is the clamped sum of the three contributions minus
  the three penalties of 25, 8 and 6.
\<close>

theorem score_password_ignores_sequences:
  assumes "length pw1 = length pw2"
    and "detect_charsets pw1 = detect_charsets pw2"
    and "shannon_entropy_bits pw1 = shannon_entropy_bits pw2"
    and "looks_like_common_password L pw1 = looks_like_common_password L pw2"
    and "has_repeated_runs pw1 4 = has_repeated_runs pw2 4"
    and "has_keyboard_pattern L pw1 4 = has_keyboard_pattern L pw2 4"
  shows "score_password L pw1 = score_password L pw2
    \<and> set (feedback (score_password L pw1)) \<subseteq> set feedback_lines
    \<and> (pw1 \<noteq> [] \<longrightarrow> score (score_password L pw1) =
          max 0 (min 100 (length_points pw1 + variety_points pw1 + entropy_points pw1
            - ((if looks_like_common_password L pw1 then 25 else 0)
               + (if has_repeated_runs pw1 4 then 8 else 0)
               + (if has_keyboard_pattern L pw1 4 then 6 else 0)))))"
proof (intro conjI impI)
  show "score_password L pw1 = score_password L pw2" by (rule same_signals_same_result[OF assms])
  show "set (feedback (score_password L pw1)) \<subseteq> set feedback_lines" by (rule feedback_in_lines)
next
  assume "pw1 \<noteq> []"
  then show "score (score_password L pw1) =
          max 0 (min 100 (length_points pw1 + variety_points pw1 + entropy_points pw1
            - ((if looks_like_common_password L pw1 then 25 else 0)
               + (if has_repeated_runs pw1 4 then 8 else 0)
               + (if has_keyboard_pattern L pw1 4 then 6 else 0))))"
    using score_password_score[of pw1 L] by (simp add: earned_points_eq penalties_def)
qed

theorem score_password_ignores_sequences_witness:
  "length (ustr ''abcd'') = length (ustr ''abce'')
   \<and> detect_charsets (ustr ''abcd'') = detect_charsets (ustr ''abce'')
   \<and> shannon_entropy_bits (ustr ''abcd'') = shannon_entropy_bits (ustr ''abce'')
   \<and> looks_like_common_password id (ustr ''abcd'') = looks_like_common_password id (ustr ''abce'')
   \<and> has_repeated_runs (ustr ''abcd'') 4 = has_repeated_runs (ustr ''abce'') 4
   \<and> has_keyboard_pattern id (ustr ''abcd'') 4 = has_keyboard_pattern id (ustr ''abce'') 4
   \<and> has_sequence id (ustr ''abcd'') 4 \<and> \<not> has_sequence id (ustr ''abce'') 4
   \<and> ustr ''abcd'' \<noteq> []
   \<and> score_password id (ustr ''abcd'') = score_password id (ustr ''abce'')"
proof -
  have ne: "ustr ''abcd'' \<noteq> []" by (simp add: ustr_def)
  have eq: "score_password id (ustr ''abcd'') = score_password id (ustr ''abce'')"
    using score_password_ignores_sequences[where L = id, OF abcd_abce_facts] by (rule conjunct1)
  show ?thesis
    by (intro conjI abcd_abce_facts abcd_seq abce_seq ne eq)
qed

section \<open>Repeated runs\<close>

text \<open>
  Claim C6 says that \<^verbatim>\<open>has_repeated_runs\<close> holds exactly when some character occurs four
  or more times in a row. The source searches for \<^verbatim>\<open>(.)\1{3,}\<close>, and the dot of a Python
  regular expression does not match the newline: a run of four newlines is a run of one
  character, yet it is not found, the 8 points are not subtracted and the line about
  repeated characters is not added.
\<close>

theorem has_repeated_runs_newlines:
  "(\<exists>pre c post. [10, 10, 10, 10] = pre @ replicate 4 (c::nat) @ post)
   \<and> \<not> has_repeated_runs [10, 10, 10, 10] 4
   \<and> score (score_password L [10, 10, 10, 10]) = 10
   \<and> feedback (score_password L [10, 10, 10, 10]) =
       [''Too short: aim for at least 12-16 characters.'',
        ''add lowercase letters to increase variety.'',
        ''Add uppercase letters to increase variety.'',
        ''Add digits to increase variety.'']"
proof -
  let ?pw = "[10, 10, 10, 10] :: ustring"
  have ne: "?pw \<noteq> []" by simp
  have r: "\<not> has_repeated_runs ?pw 4" by (simp add: has_repeated_runs_def char_defs)
  have c: "\<not> looks_like_common_password L ?pw" by (simp add: common_defs ustr_def char_defs)
  have k: "\<not> has_keyboard_pattern L ?pw 4" by (simp add: keyboard_defs ustr_def char_defs)
  have cs: "detect_charsets ?pw = (33, [''symbols''])" by (simp add: detect_charsets_def char_defs)
  have "shannon_entropy_bits ?pw = 0"
    by (simp add: shannon_entropy_bits_eq spec_shannon_nlogn)
  then have e: "entropy_points ?pw = 0" by (rule entropy_points_zero)
  have s: "score (score_password L ?pw) = 10"
    by (simp add: score_password_score[OF ne] earned_points_eq e length_points_def
        variety_points_def cs penalties_def c r k)
  have f: "step_feedback L ?pw = [''Too short: aim for at least 12-16 characters.'',
        ''add lowercase letters to increase variety.'',
        ''Add uppercase letters to increase variety.'',
        ''Add digits to increase variety.'']"
    by (simp add: step_feedback_eq cs c r k)
  have "[10, 10, 10, 10] = [] @ replicate 4 (10::nat) @ []" by (simp add: numeral_eq_Suc)
  then have x: "\<exists>pre c post. [10, 10, 10, 10] = pre @ replicate 4 (c::nat) @ post" by blast
  have y: "feedback (score_password L ?pw) = step_feedback L ?pw"
    using s by (simp add: score_password_feedback[OF ne])
  show ?thesis using x r s f y by simp
qed

section \<open>Common passwords\<close>

text \<open>
  Claim C4, as amended. \<^verbatim>\<open>looks_like_common_password\<close> holds exactly when one of the three
  rules holds of the trimmed password: (a) the trimmed, lowercased password is in the
  common-password set; (b) the trimmed password is letters followed by one to four digits
  and the lowercased letters are in the set; (c) the lowercased trimmed password with the
  substitutions applied is in the set. The passwords \<^verbatim>\<open>password\<close>, \<^verbatim>\<open>Password123\<close> and
  \<^verbatim>\<open>p@ssw0rd\<close> match. When the match fires, 25 points are part of the penalties
  subtracted from the score, and the common-password line is in the feedback.
\<close>

theorem looks_like_common_password_iff:
  "(looks_like_common_password L pw \<longleftrightarrow>
      exact_match L pw \<or> digit_variant L (py_strip pw) \<or> leet_variant L (py_strip pw))
   \<and> looks_like_common_password L (ustr ''password'')
   \<and> looks_like_common_password L (ustr ''Password123'')
   \<and> looks_like_common_password L (ustr ''p@ssw0rd'')
   \<and> (looks_like_common_password L pw \<longrightarrow>
         penalties L pw = 25 + (if has_repeated_runs pw 4 then 8 else 0)
                             + (if has_keyboard_pattern L pw 4 then 6 else 0)
         \<and> score (score_password L pw) = max 0 (min 100 (earned_points pw - penalties L pw))
         \<and> ''This looks like a common password or easy variation-avoid it.''
               \<in> set (feedback (score_password L pw)))"
proof (intro conjI impI)
  show "looks_like_common_password L pw \<longleftrightarrow>
      exact_match L pw \<or> digit_variant L (py_strip pw) \<or> leet_variant L (py_strip pw)"
    by (rule looks_like_common_password_rules)
  show "looks_like_common_password L (ustr ''password'')"
    "looks_like_common_password L (ustr ''Password123'')"
    "looks_like_common_password L (ustr ''p@ssw0rd'')"
    by (rule common_examples)+
next
  assume a: "looks_like_common_password L pw"
  then show "penalties L pw = 25 + (if has_repeated_runs pw 4 then 8 else 0)
                             + (if has_keyboard_pattern L pw 4 then 6 else 0)"
    by (simp add: penalties_def)
  from a have "pw \<noteq> []" by (rule looks_like_common_nonempty)
  then show "score (score_password L pw) = max 0 (min 100 (earned_points pw - penalties L pw))"
    by (rule score_password_score)
  from a show "''This looks like a common password or easy variation-avoid it.''
               \<in> set (feedback (score_password L pw))"
    by (rule common_line_in_feedback)
qed

theorem looks_like_common_password_iff_witness:
  "looks_like_common_password id (ustr ''Password123'')
   \<and> digit_variant id (py_strip (ustr ''Password123''))
   \<and> penalties id (ustr ''Password123'') = 25
   \<and> score (score_password id (ustr ''Password123''))
        = max 0 (min 100 (earned_points (ustr ''Password123'') - 25))
   \<and> ''This looks like a common password or easy variation-avoid it.''
        \<in> set (feedback (score_password id (ustr ''Password123'')))"
proof -
  have c: "looks_like_common_password id (ustr ''Password123'')" by (rule common_examples)
  have r: "\<not> has_repeated_runs (ustr ''Password123'') 4"
    by (simp add: has_repeated_runs_def ustr_def char_defs)
  have k: "\<not> has_keyboard_pattern id (ustr ''Password123'') 4"
    by (simp add: keyboard_defs ustr_def char_defs)
  have e: "\<not> exact_match id (ustr ''Password123'')"
    by (simp add: exact_match_def py_strip_def py_lower_def COMMON_PASSWORDS_def ustr_def char_defs)
  have l: "\<not> leet_variant id (py_strip (ustr ''Password123''))"
    by (simp add: leet_variant_def leet_char_def py_strip_def py_lower_def COMMON_PASSWORDS_def
        ustr_def char_defs)
  note t = looks_like_common_password_iff[of id "ustr ''Password123''"]
  from t c e l have d: "digit_variant id (py_strip (ustr ''Password123''))" by blast
  from t c r k have p: "penalties id (ustr ''Password123'') = 25" by simp
  from t c have s: "score (score_password id (ustr ''Password123''))
        = max 0 (min 100 (earned_points (ustr ''Password123'') - penalties id (ustr ''Password123'')))"
    by blast
  from t c have f: "''This looks like a common password or easy variation-avoid it.''
        \<in> set (feedback (score_password id (ustr ''Password123'')))" by blast
  show ?thesis using c d p s f by simp
qed

text \<open>
  The claim as stated applies rules (b) and (c) to the password itself, not to the trimmed
  one. The source trims first and uses the trimmed string throughout, so
  \<^verbatim>\<open>password123\<close> after a space matches although none of the three rules, read on the
  untrimmed password, holds.
\<close>

theorem looks_like_common_password_counterexample:
  "looks_like_common_password id (ustr '' password123'')
   \<and> \<not> (exact_match id (ustr '' password123'')
         \<or> digit_variant id (ustr '' password123'')
         \<or> leet_variant id (ustr '' password123''))"
  using padded_facts[of id] padded_not_digit_variant[of id] by blast

end
